theory Spec2Isabelle
  imports Complex_Main
begin

section \<open>Data model\<close>

text \<open>
  The repository holds an anomaly detector for series of engagement scans
  (\<^verbatim>\<open>detect-bot-algo.ts\<close>), a command-line runner carrying its own copy of the
  detector (\<^verbatim>\<open>run-detect.ts\<close>), and the scan-time caller \<^verbatim>\<open>detectBotDuringScan\<close>.

  The interface \<^verbatim>\<open>ScanData\<close> declares every metric a \<^verbatim>\<open>number\<close>. The scans the detector
  receives hold whole numbers (counts parsed by \<^verbatim>\<open>parseInt\<close> or read from integer
  columns, where a negative count is possible), so a metric is an \<^typ>\<open>int\<close>; a metric
  that is absent, \<^verbatim>\<open>NaN\<close>, infinite or fractional is outside the model. Products with the
  constants 1.2, 1.5, 0.1 and quotients of counts are computed in \<^typ>\<open>rat\<close>: exact
  arithmetic stands for the double arithmetic of the source, from which it can differ
  only where a product or quotient lies within rounding distance of the bound it is
  compared with. A value
  that may be \<^verbatim>\<open>undefined\<close> (a field read through \<^verbatim>\<open>?.\<close>, an optional argument, an
  array element out of range) is an \<^typ>\<open>'a option\<close>.

  A string is a \<^typ>\<open>string\<close> of bytes; the non-ASCII characters of the messages
  (the arrow, the two comparison signs and the en dash) are written in UTF-8.
\<close>

record ScanData =
  views :: int
  likes :: int
  saves :: int
  shares :: int
  comments :: int
  missing :: bool

record BotDetectorAlgoResponse =
  shouldReject :: bool
  bottedReason :: string

record Props =
  prevScan :: ScanData
  currentScan :: ScanData
  platform :: string
  scanIndex :: "int option"
  allScans :: "ScanData list option"
  logNotes :: bool

datatype MetricKey = Likes | Comments | Saves | Shares

record EffectivePair =
  prev :: int
  curr :: int
  prevViews :: int
  currViews :: int
  bridged :: bool

text \<open>
  An exception is a value: \<open>Error m\<close> for \<^verbatim>\<open>new Error(m)\<close>, \<open>TypeError\<close> for the error of
  reading a property of \<^verbatim>\<open>undefined\<close>.
\<close>

datatype error = Error string | TypeError

section \<open>Text\<close>

definition newline :: char where
  "newline = CHR 0x0A"

definition arrow :: string where
  "arrow = [CHR 0xE2, CHR 0x86, CHR 0x92]"

definition geq_sign :: string where
  "geq_sign = [CHR 0xE2, CHR 0x89, CHR 0xA5]"

definition en_dash :: string where
  "en_dash = [CHR 0xE2, CHR 0x80, CHR 0x93]"

text \<open>
  \<^verbatim>\<open>`${n}`\<close> for a whole number: its decimal digits, with a minus sign when negative
  (below \<^verbatim>\<open>1e21\<close> in magnitude, where JavaScript switches to exponent notation).
\<close>

definition digit_char :: "nat \<Rightarrow> char" where
  "digit_char d = char_of (48 + d)"

fun digits :: "nat \<Rightarrow> string" where
  "digits n = (if n < 10 then [digit_char n] else digits (n div 10) @ [digit_char (n mod 10)])"

declare digits.simps [simp del]

definition showInt :: "int \<Rightarrow> string" where
  "showInt n = (if n < 0 then CHR ''-'' # digits (nat (- n)) else digits (nat n))"

text \<open>
  \<^verbatim>\<open>x.toFixed(f)\<close>: the sign, then the integer nearest to \<open>\<bar>x\<bar> \<sqdot> 10\<^sup>f\<close> (the larger one
  on a tie) written with at least \<open>f + 1\<close> digits and a point before the last \<open>f\<close>.
  The source applies it to the double nearest the quotient; here it is applied to the
  quotient itself.
\<close>

definition toFixed :: "rat \<Rightarrow> nat \<Rightarrow> string" where
  "toFixed x f =
     (let n = nat \<lfloor>\<bar>x\<bar> * 10 ^ f + 1 / 2\<rfloor>;
          m = digits n;
          m' = (if length m \<le> f then replicate (f + 1 - length m) CHR ''0'' @ m else m);
          k = length m' - f
      in (if x < 0 then ''-'' else '''') @ take k m'
         @ (if f = 0 then '''' else CHR ''.'' # drop k m'))"

section \<open>The detector: \<^verbatim>\<open>detectBotAlgo\<close>\<close>

subsection \<open>Glitch guard and bridging\<close>

definition isNumber :: "int option \<Rightarrow> bool" where
  "isNumber v = (case v of None \<Rightarrow> False | Some n \<Rightarrow> True)"

definition toNum :: "int option \<Rightarrow> int" where
  "toNum v = (if isNumber v then the v else 0)"

definition isZeroish :: "int option \<Rightarrow> bool" where
  "isZeroish v = (if isNumber v then v = Some 0 else True)"

text \<open>\<^verbatim>\<open>xs[i]\<close>: \<^verbatim>\<open>undefined\<close> outside the array.\<close>

definition at_index :: "'a list \<Rightarrow> int \<Rightarrow> 'a option" where
  "at_index xs i = (if 0 \<le> i \<and> i < int (length xs) then Some (xs ! nat i) else None)"

definition hasNext :: "Props \<Rightarrow> bool" where
  "hasNext p =
     (case allScans p of None \<Rightarrow> False
      | Some xs \<Rightarrow> (case scanIndex p of None \<Rightarrow> False
                   | Some i \<Rightarrow> i + 1 < int (length xs)))"

definition hasPrevPrev :: "Props \<Rightarrow> bool" where
  "hasPrevPrev p =
     (case allScans p of None \<Rightarrow> False
      | Some xs \<Rightarrow> (case scanIndex p of None \<Rightarrow> False
                   | Some i \<Rightarrow> i - 2 \<ge> 0))"

definition nextScan :: "Props \<Rightarrow> ScanData option" where
  "nextScan p =
     (case allScans p of None \<Rightarrow> None
      | Some xs \<Rightarrow> (case scanIndex p of None \<Rightarrow> None
          | Some i \<Rightarrow> (if hasNext p then at_index xs (i + 1) else None)))"

definition prevPrevScan :: "Props \<Rightarrow> ScanData option" where
  "prevPrevScan p =
     (case allScans p of None \<Rightarrow> None
      | Some xs \<Rightarrow> (case scanIndex p of None \<Rightarrow> None
          | Some i \<Rightarrow> (if hasPrevPrev p then at_index xs (i - 2) else None)))"

fun metric :: "MetricKey \<Rightarrow> ScanData \<Rightarrow> int" where
  "metric Likes s = likes s"
| "metric Comments s = comments s"
| "metric Saves s = saves s"
| "metric Shares s = shares s"

text \<open>
  \<^verbatim>\<open>glitchLikes\<close>, \<^verbatim>\<open>glitchComments\<close>, \<^verbatim>\<open>glitchSaves\<close> and \<^verbatim>\<open>glitchShares\<close> are the same
  expression on four fields; \<open>glitch key\<close> is that expression on the field \<open>key\<close>.
\<close>

definition glitch :: "MetricKey \<Rightarrow> Props \<Rightarrow> bool" where
  "glitch key p =
     ((isZeroish (Some (metric key (currentScan p))) \<and> nextScan p \<noteq> None
         \<and> metric key (prevScan p) > 0 \<and> toNum (map_option (metric key) (nextScan p)) > 0)
      \<or> (isZeroish (Some (metric key (prevScan p))) \<and> prevPrevScan p \<noteq> None
         \<and> toNum (map_option (metric key) (prevPrevScan p)) > 0
         \<and> metric key (currentScan p) > 0))"

definition glitchLikes :: "Props \<Rightarrow> bool" where
  "glitchLikes = glitch Likes"

definition glitchComments :: "Props \<Rightarrow> bool" where
  "glitchComments = glitch Comments"

definition glitchSaves :: "Props \<Rightarrow> bool" where
  "glitchSaves = glitch Saves"

definition glitchShares :: "Props \<Rightarrow> bool" where
  "glitchShares = glitch Shares"

definition getEffectivePair :: "Props \<Rightarrow> MetricKey \<Rightarrow> EffectivePair" where
  "getEffectivePair p key =
     (let pVal = toNum (Some (metric key (prevScan p)));
          cVal = toNum (Some (metric key (currentScan p)));
          pViews = views (prevScan p);
          cViews = views (currentScan p)
      in if hasNext p \<and> isZeroish (Some (metric key (currentScan p)))
            \<and> toNum (Some (metric key (prevScan p))) > 0
            \<and> toNum (map_option (metric key) (nextScan p)) > 0
         then \<lparr>prev = pVal, curr = toNum (map_option (metric key) (nextScan p)),
               prevViews = pViews, currViews = toNum (map_option views (nextScan p)),
               bridged = True\<rparr>
         else \<lparr>prev = pVal, curr = cVal, prevViews = pViews, currViews = cViews,
               bridged = False\<rparr>)"

definition matureScan :: "Props \<Rightarrow> bool" where
  "matureScan p = (case scanIndex p of None \<Rightarrow> False | Some i \<Rightarrow> i \<ge> 1)"

text \<open>The number of leading scans with zero views (0 when no series is passed).\<close>

fun countLeadingZero :: "ScanData list \<Rightarrow> int" where
  "countLeadingZero [] = 0"
| "countLeadingZero (s # ss) = (if views s = 0 then 1 + countLeadingZero ss else 0)"

definition leadingZeroCount :: "Props \<Rightarrow> int" where
  "leadingZeroCount p = (case allScans p of None \<Rightarrow> 0 | Some xs \<Rightarrow> countLeadingZero xs)"

subsection \<open>The response under construction\<close>

text \<open>
  Every rule of the source has the shape
  \<^verbatim>\<open>if (c) { bottedReason += '\n' + m; shouldReject = true; }\<close>;
  \<open>flagIf c m\<close> is that statement.
\<close>

definition reject_with :: "string \<Rightarrow> BotDetectorAlgoResponse \<Rightarrow> BotDetectorAlgoResponse" where
  "reject_with m st = st\<lparr>bottedReason := bottedReason st @ newline # m, shouldReject := True\<rparr>"

definition flagIf :: "bool \<Rightarrow> string \<Rightarrow> BotDetectorAlgoResponse \<Rightarrow> BotDetectorAlgoResponse" where
  "flagIf c m st = (if c then reject_with m st else st)"

definition checkAnomaly ::
  "Props \<Rightarrow> string \<Rightarrow> int \<Rightarrow> int \<Rightarrow> rat \<Rightarrow> rat
    \<Rightarrow> BotDetectorAlgoResponse \<Rightarrow> BotDetectorAlgoResponse" where
  "checkAnomaly p metricName current previous viewGrowth threshold st =
     (if previous = 0 \<and> current \<ge> 10
         \<and> of_int (views (currentScan p)) < of_int (views (prevScan p)) * viewGrowth
      then reject_with (metricName @ '' appeared (0'' @ arrow @ showInt current
                          @ '') without corresponding jump in views'') st
      else if previous > 0
         \<and> of_int (views (currentScan p)) < of_int (views (prevScan p)) * viewGrowth
         \<and> of_int current > of_int previous * threshold
      then reject_with (metricName @ '' grew quickly without corresponding jump in views'') st
      else st)"

subsection \<open>Transition rules, in the order of the source\<close>

text \<open>Early 20k view jump in the first scans, the index adjusted for leading zeros.\<close>

definition earlyViewJump :: "Props \<Rightarrow> bool" where
  "earlyViewJump p =
     (matureScan p
      \<and> (case scanIndex p of None \<Rightarrow> False | Some i \<Rightarrow> i - leadingZeroCount p < 4)
      \<and> views (currentScan p) - views (prevScan p) \<ge> 20000)"

definition earlyViewJumpMsg :: string where
  "earlyViewJumpMsg = ''early 20k+ view jump within first 5 scans''"

text \<open>Likes anomalies, not on YouTube and Snapchat.\<close>

definition viewsDoubledLikesFlat :: "Props \<Rightarrow> bool" where
  "viewsDoubledLikesFlat p =
     (platform p \<noteq> ''youtube'' \<and> platform p \<noteq> ''snapchat''
      \<and> (let L = getEffectivePair p Likes
         in currViews L > 1000 \<and> currViews L > prevViews L * 2
            \<and> (of_int (curr L) :: rat) < of_int (prev L) * 1.2))"

definition viewsDoubledLikesFlatMsg :: string where
  "viewsDoubledLikesFlatMsg = ''views doubled quickly without corresponding jump in likes''"

definition viewsGrewLikesFrozen :: "Props \<Rightarrow> bool" where
  "viewsGrewLikesFrozen p =
     (platform p \<noteq> ''youtube'' \<and> platform p \<noteq> ''snapchat''
      \<and> (let L = getEffectivePair p Likes
         in matureScan p \<and> \<not> glitchLikes p \<and> currViews L - prevViews L \<ge> 1000
            \<and> curr L - prev L < 2))"

definition viewsGrewLikesFrozenMsg :: string where
  "viewsGrewLikesFrozenMsg = ''views grew but <2 likes change''"

definition likesSpikeViewsFlat :: "Props \<Rightarrow> bool" where
  "likesSpikeViewsFlat p =
     (platform p \<noteq> ''youtube'' \<and> platform p \<noteq> ''snapchat''
      \<and> (let L = getEffectivePair p Likes
         in matureScan p \<and> \<not> glitchLikes p \<and> curr L > 0
            \<and> (of_int (curr L) :: rat) > of_int (prev L) * 1.5
            \<and> (of_int (currViews L) :: rat) < of_int (prevViews L) * 1.2))"

definition likesSpikeViewsFlatMsg :: string where
  "likesSpikeViewsFlatMsg =
     ''likes spiked ('' @ geq_sign @ ''1.5x) without corresponding jump in views''"

text \<open>Shares and saves anomalies, on every platform.\<close>

definition sharesSavesAnomalies ::
  "Props \<Rightarrow> BotDetectorAlgoResponse \<Rightarrow> BotDetectorAlgoResponse" where
  "sharesSavesAnomalies p st =
     (if matureScan p then
        (let st = (if \<not> glitchShares p then
                     (let S = getEffectivePair p Shares;
                          st = checkAnomaly p ''shares'' (curr S) (prev S) 2 10 st
                      in checkAnomaly p ''shares'' (curr S) (prev S) 1.2 3 st)
                   else st)
         in (if \<not> glitchSaves p then
               (let SV = getEffectivePair p Saves;
                    st = checkAnomaly p ''saves'' (curr SV) (prev SV) 2 10 st
                in checkAnomaly p ''saves'' (curr SV) (prev SV) 1.2 3 st)
             else st))
      else st)"

definition sharesZeroToX :: "Props \<Rightarrow> bool" where
  "sharesZeroToX p =
     (matureScan p \<and> \<not> glitchShares p
      \<and> (let S0 = getEffectivePair p Shares
         in shares (prevScan p) = 0 \<and> \<not> bridged S0 \<and> shares (currentScan p) \<ge> 10
            \<and> views (currentScan p) < views (prevScan p) * 2))"

definition sharesZeroToXMsg :: string where
  "sharesZeroToXMsg =
     ''shares appeared (0'' @ arrow @ ''X) without corresponding jump in views''"

definition savesZeroToX :: "Props \<Rightarrow> bool" where
  "savesZeroToX p =
     (matureScan p \<and> \<not> glitchSaves p
      \<and> (let SV0 = getEffectivePair p Saves
         in saves (prevScan p) = 0 \<and> \<not> bridged SV0 \<and> saves (currentScan p) \<ge> 10
            \<and> views (currentScan p) < views (prevScan p) * 2))"

definition savesZeroToXMsg :: string where
  "savesZeroToXMsg =
     ''saves appeared (0'' @ arrow @ ''X) without corresponding jump in views''"

text \<open>TikTok: zero saves with 5k+ views, zero shares with 10k+ views.\<close>

definition tiktokZeroSaves :: "Props \<Rightarrow> bool" where
  "tiktokZeroSaves p =
     (platform p = ''tiktok'' \<and> views (currentScan p) \<ge> 5000 \<and> saves (currentScan p) = 0
      \<and> \<not> glitchSaves p)"

definition tiktokZeroSavesMsg :: string where
  "tiktokZeroSavesMsg = ''zero saves at 5k+ views (TikTok)''"

definition tiktokZeroShares :: "Props \<Rightarrow> bool" where
  "tiktokZeroShares p =
     (platform p = ''tiktok'' \<and> views (currentScan p) \<ge> 10000 \<and> shares (currentScan p) = 0
      \<and> \<not> glitchShares p)"

definition tiktokZeroSharesMsg :: string where
  "tiktokZeroSharesMsg = ''zero shares at 10k+ views (TikTok)''"

text \<open>Zero likes.\<close>

definition zeroLikes :: "Props \<Rightarrow> bool" where
  "zeroLikes p =
     (matureScan p \<and> \<not> glitchLikes p
      \<and> (let L0 = getEffectivePair p Likes
         in currViews L0 > 1000 \<and> curr L0 = 0
            \<and> platform p \<in> set [''tiktok'', ''instagram'', ''youtube'']))"

definition zeroLikesMsg :: string where
  "zeroLikesMsg = ''zero likes''"

text \<open>
  Snapchat ultra-low engagement: the source sets \<^verbatim>\<open>shouldReject\<close> and, as its comment says,
  adds no message here.
\<close>

definition snapchatUltraLowEngagement :: "Props \<Rightarrow> bool" where
  "snapchatUltraLowEngagement p =
     (platform p = ''snapchat'' \<and> views (currentScan p) > 20000
      \<and> comments (currentScan p) = 0 \<and> shares (currentScan p) \<le> 1)"

definition rejectIf :: "bool \<Rightarrow> BotDetectorAlgoResponse \<Rightarrow> BotDetectorAlgoResponse" where
  "rejectIf c st = (if c then st\<lparr>shouldReject := True\<rparr> else st)"

text \<open>Like-ratio collapse after a major view jump.\<close>

definition prevLikeRatio :: "Props \<Rightarrow> rat" where
  "prevLikeRatio p =
     (let Lr = getEffectivePair p Likes
      in if prevViews Lr > 0 then of_int (prev Lr) / of_int (prevViews Lr) else 0)"

definition currLikeRatio :: "Props \<Rightarrow> rat" where
  "currLikeRatio p =
     (let Lr = getEffectivePair p Likes
      in if currViews Lr > 0 then of_int (curr Lr) / of_int (currViews Lr) else 0)"

definition likeRatioCollapse :: "Props \<Rightarrow> bool" where
  "likeRatioCollapse p =
     (platform p \<noteq> ''youtube'' \<and> platform p \<noteq> ''snapchat''
      \<and> views (prevScan p) \<ge> 100 \<and> matureScan p
      \<and> (let Lr = getEffectivePair p Likes;
             bigJump = (currViews Lr \<ge> prevViews Lr * 5 \<or> currViews Lr - prevViews Lr \<ge> 5000)
         in \<not> glitchLikes p \<and> bigJump \<and> prevLikeRatio p > 0
            \<and> prevLikeRatio p / max (currLikeRatio p) (1 / 10 ^ 9) \<ge> 3))"

definition likeRatioCollapseMsg :: "Props \<Rightarrow> string" where
  "likeRatioCollapseMsg p =
     ''massive view jump with like-ratio collapse ('' @ toFixed (prevLikeRatio p * 100) 2
       @ ''% '' @ arrow @ '' '' @ toFixed (currLikeRatio p * 100) 2 @ ''%)''"

text \<open>Comment rules.\<close>

definition massiveCommentDrop :: "Props \<Rightarrow> bool" where
  "massiveCommentDrop p =
     (matureScan p \<and> \<not> glitchComments p \<and> comments (prevScan p) \<ge> 20
      \<and> (let C = getEffectivePair p Comments in prev C - curr C \<ge> 10))"

definition massiveCommentDropMsg :: "Props \<Rightarrow> string" where
  "massiveCommentDropMsg p =
     (let C = getEffectivePair p Comments
      in ''massive comment drop (-'' @ showInt (prev C - curr C) @ '')'')"

definition commentJumpViewsFlat :: "Props \<Rightarrow> bool" where
  "commentJumpViewsFlat p =
     (platform p \<noteq> ''youtube'' \<and> matureScan p \<and> \<not> glitchComments p
      \<and> (let C2 = getEffectivePair p Comments
         in \<bar>currViews C2 - prevViews C2\<bar> \<le> 30 \<and> curr C2 - prev C2 \<ge> 10))"

definition commentJumpViewsFlatMsg :: "Props \<Rightarrow> string" where
  "commentJumpViewsFlatMsg p =
     (let C2 = getEffectivePair p Comments
      in ''comments jumped by '' @ showInt (curr C2 - prev C2)
         @ '' with minimal view change (+'' @ showInt \<bar>currViews C2 - prevViews C2\<bar> @ '')'')"

definition viewJumpFactor :: "Props \<Rightarrow> rat" where
  "viewJumpFactor p =
     (let C3 = getEffectivePair p Comments
      in of_int (currViews C3) / of_int (max (prevViews C3) 1))"

definition commentJumpFactor :: "Props \<Rightarrow> rat" where
  "commentJumpFactor p =
     (let C3 = getEffectivePair p Comments
      in of_int (curr C3) / of_int (max (prev C3) 1))"

definition susCommentInjection :: "Props \<Rightarrow> bool" where
  "susCommentInjection p =
     (matureScan p \<and> \<not> glitchComments p \<and> viewJumpFactor p < 5 \<and> commentJumpFactor p \<ge> 50)"

definition susCommentInjectionMsg :: "Props \<Rightarrow> string" where
  "susCommentInjectionMsg p =
     ''sus comment injection: views '' @ showInt (views (prevScan p)) @ arrow
       @ showInt (views (currentScan p)) @ '' ('' @ toFixed (viewJumpFactor p) 1
       @ ''x) but comments '' @ showInt (comments (prevScan p)) @ arrow
       @ showInt (comments (currentScan p)) @ '' ('' @ toFixed (commentJumpFactor p) 1
       @ ''x)''"

subsection \<open>Window patterns\<close>

text \<open>
  The block runs inside \<^verbatim>\<open>try\<close>/\<^verbatim>\<open>catch\<close>; the handler logs the error and goes on.
  What can raise in the block is a read of \<^verbatim>\<open>.views\<close> from an element that is
  \<^verbatim>\<open>undefined\<close> (a \<^verbatim>\<open>TypeError\<close>): \<open>readViews\<close> is that read, and \<open>thenE\<close> passes an
  error on, as evaluation does. A read through \<^verbatim>\<open>?.\<close> does not raise.
\<close>

definition readViews :: "ScanData option \<Rightarrow> error + int" where
  "readViews x = (case x of None \<Rightarrow> Inl TypeError | Some s \<Rightarrow> Inr (views s))"

definition thenE :: "error + 'a \<Rightarrow> ('a \<Rightarrow> error + 'b) \<Rightarrow> error + 'b" where
  "thenE r f = (case r of Inl e \<Rightarrow> Inl e | Inr x \<Rightarrow> f x)"

definition js_or :: "int \<Rightarrow> int \<Rightarrow> int" where
  "js_or a d = (if a = 0 then d else a)"

definition windowGuard :: "Props \<Rightarrow> bool" where
  "windowGuard p =
     (platform p \<noteq> ''youtube''
      \<and> (case allScans p of None \<Rightarrow> False | Some xs \<Rightarrow> length xs \<ge> 6)
      \<and> scanIndex p \<noteq> None)"

definition windowStart :: "int \<Rightarrow> nat \<Rightarrow> int" where
  "windowStart scanIdx len = max 0 (min (scanIdx - 3) (int len - 6))"

text \<open>\<^verbatim>\<open>allScans.slice(start, start + 6)\<close>, for the non-negative \<open>start\<close> computed above.\<close>

definition windowScans :: "Props \<Rightarrow> ScanData list" where
  "windowScans p =
     (case allScans p of None \<Rightarrow> []
      | Some xs \<Rightarrow> (case scanIndex p of None \<Rightarrow> []
          | Some i \<Rightarrow> take 6 (drop (nat (windowStart i (length xs))) xs)))"

definition isPlateau :: "int \<Rightarrow> int \<Rightarrow> bool" where
  "isPlateau a b = (\<bar>a - b\<bar> \<le> 30)"

text \<open>\<^verbatim>\<open>scans[k]?.views || 0\<close>.\<close>

definition windowViews :: "Props \<Rightarrow> int \<Rightarrow> int" where
  "windowViews p k =
     (case at_index (windowScans p) k of None \<Rightarrow> 0 | Some s \<Rightarrow> js_or (views s) 0)"

text \<open>
  The constants the block computes before it tests them. Each \<^verbatim>\<open>scans[k].views\<close> is a
  \<open>readViews\<close> of the element, evaluated where the source evaluates it: \<^verbatim>\<open>&&\<close> and
  \<^verbatim>\<open>? :\<close> evaluate an operand only when the operands before it let them.
\<close>

definition beforePlateau :: "ScanData list \<Rightarrow> error + bool" where
  "beforePlateau scans =
     (if at_index scans 0 \<noteq> None \<and> at_index scans 2 \<noteq> None then
        thenE (readViews (at_index scans 0)) (\<lambda>v0.
        thenE (readViews (at_index scans 2)) (\<lambda>v2.
        Inr (isPlateau (js_or v0 0) (js_or v2 0))))
      else Inr False)"

definition hasJump :: "ScanData list \<Rightarrow> error + bool" where
  "hasJump scans =
     (if at_index scans 3 \<noteq> None \<and> at_index scans 2 \<noteq> None then
        thenE (readViews (at_index scans 3)) (\<lambda>v3.
        thenE (readViews (at_index scans 2)) (\<lambda>v2.
        Inr (js_or v3 0 - js_or v2 0 \<ge> 500)))
      else Inr False)"

definition consecutivePlateau :: "ScanData list \<Rightarrow> error + bool" where
  "consecutivePlateau scans =
     (if at_index scans 3 \<noteq> None \<and> at_index scans 4 \<noteq> None \<and> at_index scans 5 \<noteq> None then
        thenE (readViews (at_index scans 3)) (\<lambda>v3.
        thenE (readViews (at_index scans 4)) (\<lambda>v4.
        if isPlateau (js_or v3 0) (js_or v4 0) then
          thenE (readViews (at_index scans 4)) (\<lambda>v4'.
          thenE (readViews (at_index scans 5)) (\<lambda>v5.
          Inr (isPlateau (js_or v4' 0) (js_or v5 0))))
        else Inr False))
      else Inr False)"

definition overallChangeAbs :: "ScanData list \<Rightarrow> error + int" where
  "overallChangeAbs scans =
     (if at_index scans 5 \<noteq> None \<and> at_index scans 3 \<noteq> None then
        thenE (readViews (at_index scans 5)) (\<lambda>v5.
        thenE (readViews (at_index scans 3)) (\<lambda>v3.
        Inr \<bar>js_or v5 0 - js_or v3 0\<bar>))
      else Inr 0)"

definition overallChangeRel :: "ScanData list \<Rightarrow> error + rat" where
  "overallChangeRel scans =
     (if at_index scans 5 \<noteq> None \<and> at_index scans 3 \<noteq> None then
        thenE (readViews (at_index scans 5)) (\<lambda>v5.
        thenE (readViews (at_index scans 3)) (\<lambda>v3.
        thenE (readViews (at_index scans 3)) (\<lambda>v3'.
        Inr (of_int \<bar>js_or v5 0 - js_or v3 0\<bar> / of_int (max (js_or v3' 1) 1)))))
      else Inr 0)"

text \<open>The test of the plateau-jump-plateau rule, after its five constants.\<close>

definition plateauCondition :: "ScanData list \<Rightarrow> error + bool" where
  "plateauCondition scans =
     thenE (beforePlateau scans) (\<lambda>bp.
     thenE (hasJump scans) (\<lambda>hj.
     thenE (consecutivePlateau scans) (\<lambda>cp.
     thenE (overallChangeAbs scans) (\<lambda>abs_change.
     thenE (overallChangeRel scans) (\<lambda>rel_change.
     Inr (bp \<and> hj \<and> cp \<and> (abs_change \<le> 30 \<or> rel_change \<le> 0.1)))))))"

text \<open>The rule fires when the block is entered and its test comes out true.\<close>

definition plateauJumpPlateau :: "Props \<Rightarrow> bool" where
  "plateauJumpPlateau p = (windowGuard p \<and> plateauCondition (windowScans p) = Inr True)"

definition viewsTrace :: "Props \<Rightarrow> string" where
  "viewsTrace p =
     showInt (windowViews p 0) @ '' '' @ arrow @ '' '' @ showInt (windowViews p 1)
     @ '' '' @ arrow @ '' '' @ showInt (windowViews p 2)
     @ '' '' @ arrow @ '' '' @ showInt (windowViews p 3)
     @ '' '' @ arrow @ '' '' @ showInt (windowViews p 4)
     @ '' '' @ arrow @ '' '' @ showInt (windowViews p 5)"

definition plateauJumpPlateauMsg :: "Props \<Rightarrow> string" where
  "plateauJumpPlateauMsg p =
     ''suspicious plateau '' @ arrow @ '' jump '' @ arrow @ '' plateau pattern (views: ''
       @ viewsTrace p @ '')''"

definition smallJumpDelta :: "Props \<Rightarrow> int" where
  "smallJumpDelta p = windowViews p 2 - windowViews p 1"

definition bigJumpDelta :: "Props \<Rightarrow> int" where
  "bigJumpDelta p = windowViews p 3 - windowViews p 2"

definition smallPlateauStep :: "Props \<Rightarrow> bool" where
  "smallPlateauStep p =
     (windowGuard p
      \<and> (let twoPlateau = isPlateau (windowViews p 0) (windowViews p 1);
             highPlateau3 = (isPlateau (windowViews p 3) (windowViews p 4)
                             \<and> isPlateau (windowViews p 4) (windowViews p 5));
             smallJump = (smallJumpDelta p \<ge> 300);
             bigJump = (bigJumpDelta p \<ge> 500 \<and> bigJumpDelta p > smallJumpDelta p)
         in twoPlateau \<and> smallJump \<and> bigJump \<and> highPlateau3))"

definition smallPlateauStepMsg :: "Props \<Rightarrow> string" where
  "smallPlateauStepMsg p =
     ''small plateau-step pattern: plateau '' @ arrow @ '' small jump (+''
       @ showInt (smallJumpDelta p) @ '') '' @ arrow @ '' jump (+''
       @ showInt (bigJumpDelta p) @ '') '' @ arrow @ '' plateau (views: ''
       @ viewsTrace p @ '')''"

text \<open>
  The block, on the response built so far: the first rule with the outcome of its test,
  then the step pattern, whose reads all go through \<^verbatim>\<open>?.\<close>. \<open>tryWindowBlock\<close> is the
  \<^verbatim>\<open>try\<close>/\<^verbatim>\<open>catch\<close> around it: on an error the response stays as it was when the error
  was raised, which is the response before the block, since the block raises, if at
  all, before it appends.
\<close>

definition windowBlock ::
  "Props \<Rightarrow> BotDetectorAlgoResponse \<Rightarrow> error + BotDetectorAlgoResponse" where
  "windowBlock p st =
     (if windowGuard p then
        thenE (plateauCondition (windowScans p)) (\<lambda>c.
        Inr (flagIf (smallPlateauStep p) (smallPlateauStepMsg p)
               (flagIf c (plateauJumpPlateauMsg p) st)))
      else Inr st)"

definition tryWindowBlock ::
  "Props \<Rightarrow> BotDetectorAlgoResponse \<Rightarrow> BotDetectorAlgoResponse" where
  "tryWindowBlock p st = (case windowBlock p st of Inl e \<Rightarrow> st | Inr st' \<Rightarrow> st')"

subsection \<open>The two copies of the detector\<close>

text \<open>
  The copy of \<^verbatim>\<open>detect-bot-algo.ts\<close>. The block on zero comments and low comment ratio
  only writes to the console when \<^verbatim>\<open>logNotes\<close> is set; it does not touch the response.
\<close>

definition detectBotAlgo :: "Props \<Rightarrow> BotDetectorAlgoResponse" where
  "detectBotAlgo p =
     (let st = \<lparr>shouldReject = False, bottedReason = []\<rparr>;
          st = flagIf (earlyViewJump p) earlyViewJumpMsg st;
          st = flagIf (viewsDoubledLikesFlat p) viewsDoubledLikesFlatMsg st;
          st = flagIf (viewsGrewLikesFrozen p) viewsGrewLikesFrozenMsg st;
          st = flagIf (likesSpikeViewsFlat p) likesSpikeViewsFlatMsg st;
          st = sharesSavesAnomalies p st;
          st = flagIf (sharesZeroToX p) sharesZeroToXMsg st;
          st = flagIf (savesZeroToX p) savesZeroToXMsg st;
          st = flagIf (tiktokZeroSaves p) tiktokZeroSavesMsg st;
          st = flagIf (tiktokZeroShares p) tiktokZeroSharesMsg st;
          st = flagIf (zeroLikes p) zeroLikesMsg st;
          st = rejectIf (snapchatUltraLowEngagement p) st;
          st = flagIf (likeRatioCollapse p) (likeRatioCollapseMsg p) st;
          st = flagIf (massiveCommentDrop p) (massiveCommentDropMsg p) st;
          st = flagIf (commentJumpViewsFlat p) (commentJumpViewsFlatMsg p) st;
          st = flagIf (susCommentInjection p) (susCommentInjectionMsg p) st;
          st = tryWindowBlock p st
      in st)"

text \<open>
  The copy of \<^verbatim>\<open>run-detect.ts\<close>: the same text without the early view jump and without
  the two TikTok rules.
\<close>

definition detectBotAlgo_runner :: "Props \<Rightarrow> BotDetectorAlgoResponse" where
  "detectBotAlgo_runner p =
     (let st = \<lparr>shouldReject = False, bottedReason = []\<rparr>;
          st = flagIf (viewsDoubledLikesFlat p) viewsDoubledLikesFlatMsg st;
          st = flagIf (viewsGrewLikesFrozen p) viewsGrewLikesFrozenMsg st;
          st = flagIf (likesSpikeViewsFlat p) likesSpikeViewsFlatMsg st;
          st = sharesSavesAnomalies p st;
          st = flagIf (sharesZeroToX p) sharesZeroToXMsg st;
          st = flagIf (savesZeroToX p) savesZeroToXMsg st;
          st = flagIf (zeroLikes p) zeroLikesMsg st;
          st = rejectIf (snapchatUltraLowEngagement p) st;
          st = flagIf (likeRatioCollapse p) (likeRatioCollapseMsg p) st;
          st = flagIf (massiveCommentDrop p) (massiveCommentDropMsg p) st;
          st = flagIf (commentJumpViewsFlat p) (commentJumpViewsFlatMsg p) st;
          st = flagIf (susCommentInjection p) (susCommentInjectionMsg p) st;
          st = tryWindowBlock p st
      in st)"

section \<open>The fragments of a response\<close>

text \<open>
  The messages of the rules that fire, in the order the detector appends them. The two
  calls of \<^verbatim>\<open>checkAnomaly\<close> for a metric are two rules: both may fire, and then the
  metric's message stands twice.
\<close>

definition checkAnomalyMessages ::
  "Props \<Rightarrow> string \<Rightarrow> int \<Rightarrow> int \<Rightarrow> rat \<Rightarrow> rat \<Rightarrow> string list" where
  "checkAnomalyMessages p metricName current previous viewGrowth threshold =
     (if previous = 0 \<and> current \<ge> 10
         \<and> of_int (views (currentScan p)) < of_int (views (prevScan p)) * viewGrowth
      then [metricName @ '' appeared (0'' @ arrow @ showInt current
              @ '') without corresponding jump in views'']
      else if previous > 0
         \<and> of_int (views (currentScan p)) < of_int (views (prevScan p)) * viewGrowth
         \<and> of_int current > of_int previous * threshold
      then [metricName @ '' grew quickly without corresponding jump in views'']
      else [])"

definition sharesSavesMessages :: "Props \<Rightarrow> string list" where
  "sharesSavesMessages p =
     (if matureScan p then
        (if \<not> glitchShares p then
           (let S = getEffectivePair p Shares
            in checkAnomalyMessages p ''shares'' (curr S) (prev S) 2 10
               @ checkAnomalyMessages p ''shares'' (curr S) (prev S) 1.2 3)
         else [])
        @ (if \<not> glitchSaves p then
             (let SV = getEffectivePair p Saves
              in checkAnomalyMessages p ''saves'' (curr SV) (prev SV) 2 10
                 @ checkAnomalyMessages p ''saves'' (curr SV) (prev SV) 1.2 3)
           else [])
      else [])"

definition msgIf :: "bool \<Rightarrow> string \<Rightarrow> string list" where
  "msgIf c m = (if c then [m] else [])"

definition triggeredMessages :: "Props \<Rightarrow> string list" where
  "triggeredMessages p =
     msgIf (earlyViewJump p) earlyViewJumpMsg
     @ msgIf (viewsDoubledLikesFlat p) viewsDoubledLikesFlatMsg
     @ msgIf (viewsGrewLikesFrozen p) viewsGrewLikesFrozenMsg
     @ msgIf (likesSpikeViewsFlat p) likesSpikeViewsFlatMsg
     @ sharesSavesMessages p
     @ msgIf (sharesZeroToX p) sharesZeroToXMsg
     @ msgIf (savesZeroToX p) savesZeroToXMsg
     @ msgIf (tiktokZeroSaves p) tiktokZeroSavesMsg
     @ msgIf (tiktokZeroShares p) tiktokZeroSharesMsg
     @ msgIf (zeroLikes p) zeroLikesMsg
     @ msgIf (likeRatioCollapse p) (likeRatioCollapseMsg p)
     @ msgIf (massiveCommentDrop p) (massiveCommentDropMsg p)
     @ msgIf (commentJumpViewsFlat p) (commentJumpViewsFlatMsg p)
     @ msgIf (susCommentInjection p) (susCommentInjectionMsg p)
     @ msgIf (plateauJumpPlateau p) (plateauJumpPlateauMsg p)
     @ msgIf (smallPlateauStep p) (smallPlateauStepMsg p)"

text \<open>A list of fragments as the detector writes it: a newline before each.\<close>

definition fragments :: "string list \<Rightarrow> string" where
  "fragments ms = concat (map (\<lambda>m. newline # m) ms)"

text \<open>
  \<^verbatim>\<open>s.split('\n')\<close>, as the runner reads a reason back: the pieces between the
  separators (one piece, the empty one, for the empty string).
\<close>

fun splitOn :: "char \<Rightarrow> string \<Rightarrow> string list" where
  "splitOn c [] = [[]]"
| "splitOn c (x # xs) =
     (if x = c then [] # splitOn c xs
      else (case splitOn c xs of [] \<Rightarrow> [[x]] | w # ws \<Rightarrow> (x # w) # ws))"

section \<open>The runner: \<^verbatim>\<open>run-detect.ts\<close>\<close>

subsection \<open>Run summaries\<close>

text \<open>
  \<^verbatim>\<open>summarizeZeroLikes\<close>, \<^verbatim>\<open>summarizeUltraLowEngagement\<close>, \<^verbatim>\<open>summarizeZeroComments\<close> and
  \<^verbatim>\<open>summarizeLowCommentRatio\<close> are one loop with four conditions and four texts.
  \<open>summarizeLoop\<close> is the \<^verbatim>\<open>for\<close> loop: \<open>i\<close> is the index of the scan at the head of
  the remaining list, \<open>start\<close> the variable \<^verbatim>\<open>start\<close> (\<open>None\<close> for \<^verbatim>\<open>null\<close>), \<open>msgs\<close> the
  lines pushed so far. \<open>summarizeRuns\<close> runs it and closes a trailing run.
\<close>

fun summarizeLoop ::
  "(ScanData \<Rightarrow> bool) \<Rightarrow> (nat \<Rightarrow> nat \<Rightarrow> nat \<Rightarrow> string) \<Rightarrow> int
    \<Rightarrow> ScanData list \<Rightarrow> nat \<Rightarrow> nat option \<Rightarrow> string list \<Rightarrow> nat option \<times> string list" where
  "summarizeLoop cond line minRun [] i start msgs = (start, msgs)"
| "summarizeLoop cond line minRun (s # ss) i start msgs =
     (if cond s then
        summarizeLoop cond line minRun ss (i + 1)
          (case start of None \<Rightarrow> Some i | Some a \<Rightarrow> Some a) msgs
      else
        (case start of
           None \<Rightarrow> summarizeLoop cond line minRun ss (i + 1) None msgs
         | Some a \<Rightarrow>
             summarizeLoop cond line minRun ss (i + 1) None
               (if int (i - a) \<ge> minRun then msgs @ [line (a + 1) i (i - a)] else msgs)))"

definition summarizeRuns ::
  "(ScanData \<Rightarrow> bool) \<Rightarrow> (nat \<Rightarrow> nat \<Rightarrow> nat \<Rightarrow> string) \<Rightarrow> int \<Rightarrow> ScanData list
    \<Rightarrow> string list" where
  "summarizeRuns cond line minRun scans =
     (case summarizeLoop cond line minRun scans 0 None [] of
        (None, msgs) \<Rightarrow> msgs
      | (Some a, msgs) \<Rightarrow>
          (if int (length scans - a) \<ge> minRun
           then msgs @ [line (a + 1) (length scans) (length scans - a)]
           else msgs))"

definition leq_sign :: string where
  "leq_sign = [CHR 0xE2, CHR 0x89, CHR 0xA4]"

definition scansRange :: "nat \<Rightarrow> nat \<Rightarrow> string" where
  "scansRange a b = ''Scans '' @ showInt (int a) @ en_dash @ showInt (int b)"

definition zeroLikesLine :: "nat \<Rightarrow> nat \<Rightarrow> nat \<Rightarrow> string" where
  "zeroLikesLine a b len =
     scansRange a b @ '': zero likes across '' @ showInt (int len)
       @ '' scans (may be hidden likes)''"

definition summarizeZeroLikes :: "ScanData list \<Rightarrow> string \<Rightarrow> int \<Rightarrow> int \<Rightarrow> string list" where
  "summarizeZeroLikes scans pf minViews minRun =
     summarizeRuns (\<lambda>s. views s > minViews \<and> likes s = 0) zeroLikesLine minRun scans"

definition ultraLowEngagementLine :: "nat \<Rightarrow> nat \<Rightarrow> nat \<Rightarrow> string" where
  "ultraLowEngagementLine a b len =
     scansRange a b @ '': ultra-low engagement across '' @ showInt (int len)
       @ '' scans (20K+ views with 0 comments and '' @ leq_sign @ ''1 shares)''"

definition summarizeUltraLowEngagement ::
  "ScanData list \<Rightarrow> string \<Rightarrow> int \<Rightarrow> int \<Rightarrow> string list" where
  "summarizeUltraLowEngagement scans pf minViews minRun =
     (if pf \<noteq> ''snapchat'' then []
      else summarizeRuns (\<lambda>s. views s > minViews \<and> comments s = 0 \<and> shares s \<le> 1)
             ultraLowEngagementLine minRun scans)"

definition zeroCommentsLine :: "nat \<Rightarrow> nat \<Rightarrow> nat \<Rightarrow> string" where
  "zeroCommentsLine a b len =
     scansRange a b @ '': zero comments across '' @ showInt (int len)
       @ '' scans (5K+ views with 0 comments)''"

definition summarizeZeroComments ::
  "ScanData list \<Rightarrow> string \<Rightarrow> int \<Rightarrow> int \<Rightarrow> string list" where
  "summarizeZeroComments scans pf minViews minRun =
     summarizeRuns (\<lambda>s. views s > minViews \<and> comments s = 0) zeroCommentsLine minRun scans"

definition lowCommentRatioLine :: "rat \<Rightarrow> nat \<Rightarrow> nat \<Rightarrow> nat \<Rightarrow> string" where
  "lowCommentRatioLine threshold a b len =
     scansRange a b @ '': low comment ratio across '' @ showInt (int len)
       @ '' scans (5K+ views with <'' @ toFixed (threshold * 100) 2 @ ''% comment ratio)''"

text \<open>
  \<^verbatim>\<open>s.comments / s.views < threshold\<close>: with zero views the quotient of the source is
  \<^verbatim>\<open>NaN\<close> or an infinity, below the threshold only when the comments are negative.
\<close>

definition lowRatio :: "int \<Rightarrow> rat \<Rightarrow> ScanData \<Rightarrow> bool" where
  "lowRatio minViews threshold s =
     (views s > minViews
      \<and> (if views s = 0 then comments s < 0
         else of_int (comments s) / of_int (views s) < threshold))"

definition summarizeLowCommentRatio ::
  "ScanData list \<Rightarrow> string \<Rightarrow> int \<Rightarrow> int \<Rightarrow> rat \<Rightarrow> string list" where
  "summarizeLowCommentRatio scans pf minViews minRun threshold =
     summarizeRuns (lowRatio minViews threshold) (lowCommentRatioLine threshold) minRun scans"

subsection \<open>Strings of the report\<close>

definition isSpace :: "char \<Rightarrow> bool" where
  "isSpace c = ((of_char c :: nat) \<in> set [9, 10, 11, 12, 13, 32])"

text \<open>\<^verbatim>\<open>s.trim()\<close>, on the ASCII white space.\<close>

definition trim :: "string \<Rightarrow> string" where
  "trim s = rev (dropWhile isSpace (rev (dropWhile isSpace s)))"

text \<open>\<^verbatim>\<open>xs.join(sep)\<close>.\<close>

fun join :: "string \<Rightarrow> string list \<Rightarrow> string" where
  "join sep [] = []"
| "join sep [x] = x"
| "join sep (x # y # ys) = x @ sep @ join sep (y # ys)"

definition wordChar :: "char \<Rightarrow> bool" where
  "wordChar c =
     (let n = (of_char c :: nat)
      in (48 \<le> n \<and> n \<le> 57) \<or> (65 \<le> n \<and> n \<le> 90) \<or> n = 95 \<or> (97 \<le> n \<and> n \<le> 122))"

text \<open>
  \<^verbatim>\<open>/\bw\b/.test(s)\<close> for a phrase \<open>w\<close> that begins and ends with a word character:
  \<open>w\<close> occurs in \<open>s\<close> with no word character right before it and none right after it.
  \<open>pw\<close> tells whether the character before the current position is a word character.
\<close>

fun hasWordFrom :: "string \<Rightarrow> bool \<Rightarrow> string \<Rightarrow> bool" where
  "hasWordFrom w pw [] = False"
| "hasWordFrom w pw (c # cs) =
     ((\<not> pw \<and> take (length w) (c # cs) = w
        \<and> (case drop (length w) (c # cs) of [] \<Rightarrow> True | d # ds \<Rightarrow> \<not> wordChar d))
      \<or> hasWordFrom w (wordChar c) cs)"

definition hasWord :: "string \<Rightarrow> string \<Rightarrow> bool" where
  "hasWord w s = hasWordFrom w False s"

subsection \<open>\<^verbatim>\<open>analyzeUrl\<close>\<close>

record AnalysisResult =
  url :: string
  platform_r :: string
  scanCount :: nat
  flagged :: "string list"
  perScan :: "(nat \<times> string list) list"
  zeroCommentSummaries :: "string list option"
  lowCommentRatioSummaries :: "string list option"

text \<open>
  The body of the loop of pairwise checks for index \<open>i\<close>, on the pair
  \<open>(flagged, perScan)\<close>. The detector called here is the runner's own copy.
\<close>

definition pairwiseStep ::
  "string \<Rightarrow> ScanData list \<Rightarrow> bool \<Rightarrow> string list \<times> (nat \<times> string list) list \<Rightarrow> nat
    \<Rightarrow> string list \<times> (nat \<times> string list) list" where
  "pairwiseStep pf validScans notes acc i =
     (let r = detectBotAlgo_runner
                \<lparr>prevScan = validScans ! (i - 1), currentScan = validScans ! i,
                 platform = pf, scanIndex = Some (int i), allScans = Some validScans,
                 logNotes = notes\<rparr>;
          reasons = filter (\<lambda>s. s \<noteq> []) (map trim (splitOn newline (bottedReason r)));
          line = (if reasons \<noteq> []
                  then ''Scan '' @ showInt (int i) @ '': Anomalie : '' @ join ''; '' reasons
                  else ''Scan '' @ showInt (int i) @ '': No anomalies'')
      in (if shouldReject r \<and> reasons \<noteq> [] then fst acc @ [line] else fst acc,
          snd acc @ [(i, reasons)]))"

text \<open>
  \<^verbatim>\<open>analyzeUrl\<close> after the page is fetched: \<open>pf\<close> is what \<^verbatim>\<open>inferPlatformFromUrl\<close> returned
  and \<open>scans\<close> what \<^verbatim>\<open>parseScans\<close> returned. A \<^verbatim>\<open>throw\<close> is \<open>Inl\<close>.
\<close>

definition analyzeUrl ::
  "string \<Rightarrow> string \<Rightarrow> ScanData list \<Rightarrow> bool \<Rightarrow> error + AnalysisResult" where
  "analyzeUrl u pf scans notes =
     (let validScans = filter (\<lambda>s. \<not> missing s) scans
      in if validScans = [] then Inl (Error ''No scans found.'')
         else
           (let (flagged0, perScan0) =
                  foldl (pairwiseStep pf validScans notes) ([], []) [1 ..< length validScans];
                flagged1 =
                  (if pf \<in> set [''tiktok'', ''instagram'', ''youtube''] then
                     (let zeroLikeSummaries = summarizeZeroLikes validScans pf 1000 5
                      in if zeroLikeSummaries \<noteq> []
                         then filter (\<lambda>line. \<not> hasWord ''zero likes'' line) flagged0
                              @ zeroLikeSummaries
                         else flagged0)
                   else flagged0);
                flagged2 =
                  (if pf = ''snapchat'' then
                     (let ultraLowEngagementSummaries =
                            summarizeUltraLowEngagement validScans pf 20000 3
                      in if ultraLowEngagementSummaries \<noteq> []
                         then filter (\<lambda>line. \<not> hasWord ''ultra-low engagement'' line) flagged1
                              @ ultraLowEngagementSummaries
                         else flagged1)
                   else flagged1)
            in Inr \<lparr>url = u, platform_r = pf, scanCount = length scans, flagged = flagged2,
                    perScan = perScan0,
                    zeroCommentSummaries =
                      (if pf \<in> set [''tiktok'', ''instagram'', ''youtube'']
                       then Some (summarizeZeroComments validScans pf 5000 3) else None),
                    lowCommentRatioSummaries =
                      (if pf \<in> set [''tiktok'', ''instagram'', ''youtube'']
                       then Some (summarizeLowCommentRatio validScans pf 5000 3 0.01)
                       else None)\<rparr>))"

section \<open>The scan-time caller: \<^verbatim>\<open>detectBotDuringScan\<close>\<close>

text \<open>
  After the scans of the submission are read from storage: \<open>pf\<close> is the submission's
  platform, \<open>scans\<close> its scans in order. The result is the value the promise resolves
  to: \<open>None\<close> for the bare \<^verbatim>\<open>return\<close> (no verdict), \<open>Some b\<close> for \<^verbatim>\<open>return shouldReject\<close>.
  The notes written back to storage carry the clock's time and are left out.
\<close>

definition detectBotDuringScan :: "string \<Rightarrow> ScanData list \<Rightarrow> bool option" where
  "detectBotDuringScan pf scans =
     (if length scans < 2 then None
      else Some (foldl
        (\<lambda>reject i.
           if shouldReject (detectBotAlgo
                \<lparr>prevScan = scans ! (i - 1), currentScan = scans ! i,
                 platform = (if pf = ''youtube-short'' then ''youtube'' else pf),
                 scanIndex = Some (int i), allScans = Some scans, logNotes = False\<rparr>)
           then True else reject)
        False [1 ..< length scans]))"

section \<open>Example series\<close>

definition mkScan :: "int \<Rightarrow> int \<Rightarrow> int \<Rightarrow> int \<Rightarrow> int \<Rightarrow> ScanData" where
  "mkScan v l c sh sv =
     \<lparr>views = v, likes = l, saves = sv, shares = sh, comments = c, missing = False\<rparr>"

text \<open>
  The call the callers make for the transition into scan \<open>i\<close> of a series:
  \<^verbatim>\<open>detectBotAlgo({prevScan: xs[i-1], currentScan: xs[i], platform, scanIndex: i, allScans: xs})\<close>.
\<close>

definition transition :: "string \<Rightarrow> ScanData list \<Rightarrow> nat \<Rightarrow> Props" where
  "transition pf xs i =
     \<lparr>prevScan = xs ! (i - 1), currentScan = xs ! i, platform = pf,
      scanIndex = Some (int i), allScans = Some xs, logNotes = False\<rparr>"

definition plateauSeries :: "ScanData list" where
  "plateauSeries = map (\<lambda>v. mkScan v 50 3 2 1) [1000, 1010, 995, 1600, 1605, 1590]"

definition smallJumpSeries :: "ScanData list" where
  "smallJumpSeries = map (\<lambda>v. mkScan v 50 3 2 1) [1000, 1010, 995, 1095, 1100, 1085]"

section \<open>Properties of the detector\<close>

subsection \<open>What a rule does to the response\<close>

lemma fragments_Nil [simp]: "fragments [] = []"
  by (simp add: fragments_def)

lemma fragments_Cons [simp]: "fragments (m # ms) = newline # m @ fragments ms"
  by (simp add: fragments_def)

lemma fragments_append [simp]: "fragments (ms @ ns) = fragments ms @ fragments ns"
  by (simp add: fragments_def)

lemma fragments_empty_iff [simp]: "fragments ms = [] \<longleftrightarrow> ms = []"
  by (cases ms) simp_all

lemma msgIf_simps [simp]:
  "msgIf True m = [m]" "msgIf False m = []"
  by (simp_all add: msgIf_def)

lemma msgIf_empty_iff [simp]: "msgIf c m = [] \<longleftrightarrow> \<not> c"
  by (simp add: msgIf_def)

lemma set_msgIf [simp]: "x \<in> set (msgIf c m) \<longleftrightarrow> c \<and> x = m"
  by (auto simp: msgIf_def)

lemma flagIf_reason [simp]:
  "bottedReason (flagIf c m st) = bottedReason st @ fragments (msgIf c m)"
  by (simp add: flagIf_def reject_with_def msgIf_def)

lemma flagIf_reject [simp]:
  "shouldReject (flagIf c m st) \<longleftrightarrow> shouldReject st \<or> msgIf c m \<noteq> []"
  by (simp add: flagIf_def reject_with_def)

lemma rejectIf_reason [simp]: "bottedReason (rejectIf c st) = bottedReason st"
  by (simp add: rejectIf_def)

lemma rejectIf_reject [simp]: "shouldReject (rejectIf c st) \<longleftrightarrow> shouldReject st \<or> c"
  by (simp add: rejectIf_def)

lemma checkAnomaly_reason [simp]:
  "bottedReason (checkAnomaly p n c q g t st)
     = bottedReason st @ fragments (checkAnomalyMessages p n c q g t)"
  by (simp add: checkAnomaly_def checkAnomalyMessages_def reject_with_def)

lemma checkAnomaly_reject [simp]:
  "shouldReject (checkAnomaly p n c q g t st)
     \<longleftrightarrow> shouldReject st \<or> checkAnomalyMessages p n c q g t \<noteq> []"
  by (simp add: checkAnomaly_def checkAnomalyMessages_def reject_with_def)

lemma readViews_Some [simp]: "readViews (Some s) = Inr (views s)"
  by (simp add: readViews_def)

lemma thenE_Inr [simp]: "thenE (Inr x) f = f x"
  by (simp add: thenE_def)

lemma plateauCondition_completes: "\<exists>b. plateauCondition scans = Inr b"
proof -
  have "\<exists>b. beforePlateau scans = Inr b" "\<exists>b. hasJump scans = Inr b"
    "\<exists>b. consecutivePlateau scans = Inr b" "\<exists>a. overallChangeAbs scans = Inr a"
    "\<exists>r. overallChangeRel scans = Inr r"
    by (auto simp: beforePlateau_def hasJump_def consecutivePlateau_def overallChangeAbs_def
        overallChangeRel_def)
  then show ?thesis
    by (auto simp: plateauCondition_def)
qed

lemma windowBlock_completes:
  "windowBlock p st
     = Inr (flagIf (smallPlateauStep p) (smallPlateauStepMsg p)
              (flagIf (plateauJumpPlateau p) (plateauJumpPlateauMsg p) st))"
proof (cases "windowGuard p")
  case True
  obtain b where b: "plateauCondition (windowScans p) = Inr b"
    using plateauCondition_completes by blast
  with True show ?thesis
    by (simp add: windowBlock_def plateauJumpPlateau_def)
next
  case False
  then show ?thesis
    by (simp add: windowBlock_def plateauJumpPlateau_def smallPlateauStep_def flagIf_def)
qed

lemma tryWindowBlock_eq [simp]:
  "tryWindowBlock p st
     = flagIf (smallPlateauStep p) (smallPlateauStepMsg p)
         (flagIf (plateauJumpPlateau p) (plateauJumpPlateauMsg p) st)"
  by (simp add: tryWindowBlock_def windowBlock_completes)

lemma sharesSavesAnomalies_reason [simp]:
  "bottedReason (sharesSavesAnomalies p st)
     = bottedReason st @ fragments (sharesSavesMessages p)"
  by (simp add: sharesSavesAnomalies_def sharesSavesMessages_def Let_def)

lemma sharesSavesAnomalies_reject [simp]:
  "shouldReject (sharesSavesAnomalies p st)
     \<longleftrightarrow> shouldReject st \<or> sharesSavesMessages p \<noteq> []"
  by (auto simp add: sharesSavesAnomalies_def sharesSavesMessages_def Let_def)

lemma detectBotAlgo_reason:
  "bottedReason (detectBotAlgo p) = fragments (triggeredMessages p)"
  by (simp add: detectBotAlgo_def triggeredMessages_def Let_def)

lemma detectBotAlgo_reject:
  "shouldReject (detectBotAlgo p)
     \<longleftrightarrow> triggeredMessages p \<noteq> [] \<or> snapchatUltraLowEngagement p"
  by (simp add: detectBotAlgo_def triggeredMessages_def Let_def) blast

subsection \<open>The lines of a reason\<close>

lemma digit_char_not_newline: "d < 10 \<Longrightarrow> digit_char d \<noteq> newline"
proof
  assume d: "d < 10" and e: "digit_char d = newline"
  from e have "of_char (digit_char d) = (of_char newline :: nat)" by simp
  then have "(48 + d) mod 256 = (10::nat)" by (simp add: digit_char_def newline_def)
  with d show False by simp
qed

lemma digits_no_newline: "newline \<notin> set (digits n)"
proof (induction n rule: digits.induct)
  case (1 n)
  show ?case
  proof (cases "n < 10")
    case True
    then show ?thesis using digit_char_not_newline [of n] by (simp add: digits.simps [of n])
  next
    case False
    have "n mod 10 < 10" by simp
    then have "digit_char (n mod 10) \<noteq> newline" by (rule digit_char_not_newline)
    with False 1 show ?thesis by (simp add: digits.simps [of n])
  qed
qed

lemma showInt_no_newline: "newline \<notin> set (showInt n)"
  by (simp add: showInt_def digits_no_newline) (simp add: newline_def)

lemma toFixed_no_newline: "newline \<notin> set (toFixed x f)"
proof -
  have a: "newline \<notin> set (take k m)" if "newline \<notin> set m" for k m
    using that by (meson in_set_takeD)
  have b: "newline \<notin> set (drop k m)" if "newline \<notin> set m" for k m
    using that by (meson in_set_dropD)
  have c: "CHR ''0'' \<noteq> newline" "CHR ''.'' \<noteq> newline" "CHR ''-'' \<noteq> newline"
    by (simp_all add: newline_def)
  show ?thesis
    unfolding toFixed_def Let_def
    using c by (auto simp: digits_no_newline dest!: in_set_takeD in_set_dropD)
qed

lemma splitOn_no_sep: "c \<notin> set m \<Longrightarrow> splitOn c m = [m]"
  by (induction m) auto

lemma splitOn_append_sep: "c \<notin> set m \<Longrightarrow> splitOn c (m @ c # r) = m # splitOn c r"
  by (induction m) auto

lemma splitOn_fragments_aux:
  "\<forall>m\<in>set ms. newline \<notin> set m \<Longrightarrow> newline \<notin> set m0
     \<Longrightarrow> splitOn newline (m0 @ fragments ms) = m0 # ms"
proof (induction ms arbitrary: m0)
  case Nil
  then show ?case by (simp add: splitOn_no_sep)
next
  case (Cons m ms)
  then show ?case by (simp add: splitOn_append_sep)
qed

lemma splitOn_fragments:
  "\<forall>m\<in>set ms. newline \<notin> set m \<Longrightarrow> splitOn newline (fragments ms) = [] # ms"
  using splitOn_fragments_aux [of ms "[]"] by simp


lemmas message_defs =
  earlyViewJumpMsg_def viewsDoubledLikesFlatMsg_def viewsGrewLikesFrozenMsg_def
  likesSpikeViewsFlatMsg_def sharesZeroToXMsg_def savesZeroToXMsg_def tiktokZeroSavesMsg_def
  tiktokZeroSharesMsg_def zeroLikesMsg_def likeRatioCollapseMsg_def massiveCommentDropMsg_def
  commentJumpViewsFlatMsg_def susCommentInjectionMsg_def plateauJumpPlateauMsg_def
  smallPlateauStepMsg_def

lemma checkAnomalyMessages_no_newline:
  assumes "newline \<notin> set n" and "m \<in> set (checkAnomalyMessages p n c q g t)"
  shows "newline \<notin> set m"
proof -
  have lit: "newline \<notin> set ('' appeared (0'' @ arrow)"
    "newline \<notin> set '') without corresponding jump in views''"
    "newline \<notin> set '' grew quickly without corresponding jump in views''"
    by (simp_all add: newline_def arrow_def)
  from assms(2) consider
    "m = n @ '' appeared (0'' @ arrow @ showInt c @ '') without corresponding jump in views''"
    | "m = n @ '' grew quickly without corresponding jump in views''"
    by (auto simp: checkAnomalyMessages_def split: if_splits)
  then show ?thesis
  proof cases
    case 1
    have "set m = set n \<union> set ('' appeared (0'' @ arrow) \<union> set (showInt c)
            \<union> set '') without corresponding jump in views''"
      unfolding 1 by (simp only: set_append append_assoc Un_assoc)
    then show ?thesis using assms(1) lit showInt_no_newline [of c] by blast
  next
    case 2
    have "set m = set n \<union> set '' grew quickly without corresponding jump in views''"
      unfolding 2 by (simp only: set_append)
    then show ?thesis using assms(1) lit by blast
  qed
qed

lemma checkAnomalyMessages_shares_no_newline:
  assumes "m \<in> set (checkAnomalyMessages p ''shares'' c q g t)"
  shows "newline \<notin> set m"
proof -
  have "newline \<notin> set ''shares''" by (simp add: newline_def)
  then show ?thesis using assms by (rule checkAnomalyMessages_no_newline)
qed

lemma checkAnomalyMessages_saves_no_newline:
  assumes "m \<in> set (checkAnomalyMessages p ''saves'' c q g t)"
  shows "newline \<notin> set m"
proof -
  have "newline \<notin> set ''saves''" by (simp add: newline_def)
  then show ?thesis using assms by (rule checkAnomalyMessages_no_newline)
qed

lemma sharesSavesMessages_no_newline:
  "m \<in> set (sharesSavesMessages p) \<Longrightarrow> newline \<notin> set m"
  by (auto simp: sharesSavesMessages_def Let_def split: if_splits
      dest: checkAnomalyMessages_shares_no_newline checkAnomalyMessages_saves_no_newline)

lemma no_newline_append:
  "newline \<notin> set a \<Longrightarrow> newline \<notin> set b \<Longrightarrow> newline \<notin> set (a @ b)"
  by simp

lemma arrow_no_newline: "newline \<notin> set arrow"
  by (simp add: arrow_def newline_def)

lemma viewsTrace_no_newline: "newline \<notin> set (viewsTrace p)"
proof -
  have sp: "newline \<notin> set '' ''" by (simp add: newline_def)
  show ?thesis
    unfolding viewsTrace_def
    by (intro no_newline_append showInt_no_newline arrow_no_newline sp)
qed

lemma likeRatioCollapseMsg_no_newline: "newline \<notin> set (likeRatioCollapseMsg p)"
proof -
  have lit: "newline \<notin> set ''massive view jump with like-ratio collapse (''"
    "newline \<notin> set ''% ''" "newline \<notin> set '' ''" "newline \<notin> set ''%)''"
    by (simp_all add: newline_def)
  show ?thesis
    unfolding likeRatioCollapseMsg_def
    by (intro no_newline_append toFixed_no_newline arrow_no_newline lit)
qed

lemma massiveCommentDropMsg_no_newline: "newline \<notin> set (massiveCommentDropMsg p)"
proof -
  have lit: "newline \<notin> set ''massive comment drop (-''" "newline \<notin> set '')''"
    by (simp_all add: newline_def)
  show ?thesis
    unfolding massiveCommentDropMsg_def Let_def
    by (intro no_newline_append showInt_no_newline lit)
qed

lemma commentJumpViewsFlatMsg_no_newline: "newline \<notin> set (commentJumpViewsFlatMsg p)"
proof -
  have lit: "newline \<notin> set ''comments jumped by ''"
    "newline \<notin> set '' with minimal view change (+''" "newline \<notin> set '')''"
    by (simp_all add: newline_def)
  show ?thesis
    unfolding commentJumpViewsFlatMsg_def Let_def
    by (intro no_newline_append showInt_no_newline lit)
qed

lemma susCommentInjectionMsg_no_newline: "newline \<notin> set (susCommentInjectionMsg p)"
proof -
  have lit: "newline \<notin> set ''sus comment injection: views ''" "newline \<notin> set '' (''"
    "newline \<notin> set ''x) but comments ''" "newline \<notin> set ''x)''"
    by (simp_all add: newline_def)
  show ?thesis
    unfolding susCommentInjectionMsg_def
    by (intro no_newline_append showInt_no_newline toFixed_no_newline arrow_no_newline lit)
qed

lemma plateauJumpPlateauMsg_no_newline: "newline \<notin> set (plateauJumpPlateauMsg p)"
proof -
  have lit: "newline \<notin> set ''suspicious plateau ''" "newline \<notin> set '' jump ''"
    "newline \<notin> set '' plateau pattern (views: ''" "newline \<notin> set '')''"
    by (simp_all add: newline_def)
  show ?thesis
    unfolding plateauJumpPlateauMsg_def
    by (intro no_newline_append viewsTrace_no_newline arrow_no_newline lit)
qed

lemma smallPlateauStepMsg_no_newline: "newline \<notin> set (smallPlateauStepMsg p)"
proof -
  have lit: "newline \<notin> set ''small plateau-step pattern: plateau ''"
    "newline \<notin> set '' small jump (+''" "newline \<notin> set '') ''"
    "newline \<notin> set '' jump (+''" "newline \<notin> set '' plateau (views: ''"
    "newline \<notin> set '')''"
    by (simp_all add: newline_def)
  show ?thesis
    unfolding smallPlateauStepMsg_def
    by (intro no_newline_append viewsTrace_no_newline showInt_no_newline arrow_no_newline lit)
qed

lemma literal_messages_no_newline:
  "newline \<notin> set earlyViewJumpMsg" "newline \<notin> set viewsDoubledLikesFlatMsg"
  "newline \<notin> set viewsGrewLikesFrozenMsg" "newline \<notin> set likesSpikeViewsFlatMsg"
  "newline \<notin> set sharesZeroToXMsg" "newline \<notin> set savesZeroToXMsg"
  "newline \<notin> set tiktokZeroSavesMsg" "newline \<notin> set tiktokZeroSharesMsg"
  "newline \<notin> set zeroLikesMsg"
  by (simp_all add: message_defs newline_def arrow_def geq_sign_def)

lemmas messages_no_newline =
  literal_messages_no_newline likeRatioCollapseMsg_no_newline massiveCommentDropMsg_no_newline
  commentJumpViewsFlatMsg_no_newline susCommentInjectionMsg_no_newline
  plateauJumpPlateauMsg_no_newline smallPlateauStepMsg_no_newline

lemma triggeredMessages_no_newline:
  "m \<in> set (triggeredMessages p) \<Longrightarrow> newline \<notin> set m"
  unfolding triggeredMessages_def
  apply (simp only: set_append Un_iff set_msgIf)
  apply (elim disjE conjE)
  apply (simp_all only: messages_no_newline sharesSavesMessages_no_newline not_False_eq_True)
  done

lemma reason_lines:
  "splitOn newline (bottedReason (detectBotAlgo p)) = [] # triggeredMessages p"
  by (simp add: detectBotAlgo_reason splitOn_fragments triggeredMessages_no_newline)

subsection \<open>Which rule wrote which line\<close>

lemma checkAnomalyMessages_prefix:
  "m \<in> set (checkAnomalyMessages p n c q g t) \<Longrightarrow> \<exists>r. m = n @ r"
  by (auto simp: checkAnomalyMessages_def split: if_splits)

lemma sharesSavesMessages_prefix:
  assumes "m \<in> set (sharesSavesMessages p)"
  shows "\<exists>r. m = ''sh'' @ r \<or> m = ''sa'' @ r"
proof -
  from assms consider c q g t where "m \<in> set (checkAnomalyMessages p ''shares'' c q g t)"
    | c q g t where "m \<in> set (checkAnomalyMessages p ''saves'' c q g t)"
    by (auto simp: sharesSavesMessages_def Let_def split: if_splits)
  then show ?thesis
  proof cases
    case 1
    from checkAnomalyMessages_prefix [OF this] show ?thesis by auto
  next
    case 2
    from checkAnomalyMessages_prefix [OF this] show ?thesis by auto
  qed
qed

lemma earlyViewJumpMsg_triggered:
  "earlyViewJumpMsg \<in> set (triggeredMessages p) \<longleftrightarrow> earlyViewJump p"
proof -
  have "earlyViewJumpMsg \<notin> set (sharesSavesMessages p)"
    using sharesSavesMessages_prefix [of earlyViewJumpMsg p] by (auto simp: earlyViewJumpMsg_def)
  then show ?thesis
    by (simp add: triggeredMessages_def message_defs Let_def)
qed

lemma viewsDoubledLikesFlatMsg_triggered:
  "viewsDoubledLikesFlatMsg \<in> set (triggeredMessages p) \<longleftrightarrow> viewsDoubledLikesFlat p"
proof -
  have "viewsDoubledLikesFlatMsg \<notin> set (sharesSavesMessages p)"
    using sharesSavesMessages_prefix [of viewsDoubledLikesFlatMsg p]
    by (auto simp: viewsDoubledLikesFlatMsg_def)
  then show ?thesis
    by (simp add: triggeredMessages_def message_defs Let_def)
qed

lemma viewsGrewLikesFrozenMsg_triggered:
  "viewsGrewLikesFrozenMsg \<in> set (triggeredMessages p) \<longleftrightarrow> viewsGrewLikesFrozen p"
proof -
  have "viewsGrewLikesFrozenMsg \<notin> set (sharesSavesMessages p)"
    using sharesSavesMessages_prefix [of viewsGrewLikesFrozenMsg p]
    by (auto simp: viewsGrewLikesFrozenMsg_def)
  then show ?thesis
    by (simp add: triggeredMessages_def message_defs Let_def)
qed

lemma zeroLikesMsg_triggered:
  "zeroLikesMsg \<in> set (triggeredMessages p) \<longleftrightarrow> zeroLikes p"
proof -
  have "zeroLikesMsg \<notin> set (sharesSavesMessages p)"
    using sharesSavesMessages_prefix [of zeroLikesMsg p]
    by (auto simp: zeroLikesMsg_def)
  then show ?thesis
    by (simp add: triggeredMessages_def message_defs Let_def)
qed

lemma plateauJumpPlateauMsg_triggered:
  "plateauJumpPlateauMsg p \<in> set (triggeredMessages p) \<longleftrightarrow> plateauJumpPlateau p"
proof -
  have "plateauJumpPlateauMsg p \<notin> set (sharesSavesMessages p)"
    using sharesSavesMessages_prefix [of "plateauJumpPlateauMsg p" p]
    by (auto simp: plateauJumpPlateauMsg_def)
  then show ?thesis
    by (simp add: triggeredMessages_def message_defs Let_def)
qed

subsection \<open>Evaluating the detector on a concrete transition\<close>

lemmas eval_defs = mkScan_def transition_def
  isNumber_def toNum_def isZeroish_def at_index_def hasNext_def hasPrevPrev_def nextScan_def prevPrevScan_def
  glitch_def glitchLikes_def glitchComments_def glitchSaves_def glitchShares_def getEffectivePair_def
  matureScan_def leadingZeroCount_def
  earlyViewJump_def viewsDoubledLikesFlat_def viewsGrewLikesFrozen_def likesSpikeViewsFlat_def
  sharesZeroToX_def savesZeroToX_def tiktokZeroSaves_def tiktokZeroShares_def zeroLikes_def
  snapchatUltraLowEngagement_def prevLikeRatio_def currLikeRatio_def likeRatioCollapse_def
  massiveCommentDrop_def commentJumpViewsFlat_def viewJumpFactor_def commentJumpFactor_def
  susCommentInjection_def js_or_def windowGuard_def windowStart_def windowScans_def isPlateau_def
  windowViews_def readViews_def thenE_def beforePlateau_def hasJump_def consecutivePlateau_def overallChangeAbs_def
  overallChangeRel_def plateauCondition_def plateauJumpPlateau_def smallJumpDelta_def bigJumpDelta_def smallPlateauStep_def
  checkAnomalyMessages_def sharesSavesMessages_def triggeredMessages_def Let_def

subsection \<open>The window of six scans\<close>

lemma window_at_index:
  assumes "allScans p = Some xs" and "length xs \<ge> 6" and "scanIndex p = Some i"
    and "k < 6"
  shows "at_index (windowScans p) (int k)
           = Some (xs ! (nat (max 0 (min (i - 3) (int (length xs) - 6))) + k))"
proof -
  let ?s = "nat (max 0 (min (i - 3) (int (length xs) - 6)))"
  have s: "?s + 6 \<le> length xs" using assms(2) by auto
  have w: "windowScans p = take 6 (drop ?s xs)"
    using assms(1,3) by (simp add: windowScans_def windowStart_def)
  have l: "length (windowScans p) = 6" using s by (simp add: w)
  have "windowScans p ! k = xs ! (?s + k)"
    using s assms(4) by (simp add: w)
  then show ?thesis using l assms(4) by (simp add: at_index_def)
qed

lemma window_at_index_numerals:
  assumes "allScans p = Some xs" and "length xs \<ge> 6" and "scanIndex p = Some i"
  shows "at_index (windowScans p) 0 = Some (xs ! (nat (max 0 (min (i - 3) (int (length xs) - 6))) + 0))"
    "at_index (windowScans p) 1 = Some (xs ! (nat (max 0 (min (i - 3) (int (length xs) - 6))) + 1))"
    "at_index (windowScans p) 2 = Some (xs ! (nat (max 0 (min (i - 3) (int (length xs) - 6))) + 2))"
    "at_index (windowScans p) 3 = Some (xs ! (nat (max 0 (min (i - 3) (int (length xs) - 6))) + 3))"
    "at_index (windowScans p) 4 = Some (xs ! (nat (max 0 (min (i - 3) (int (length xs) - 6))) + 4))"
    "at_index (windowScans p) 5 = Some (xs ! (nat (max 0 (min (i - 3) (int (length xs) - 6))) + 5))"
  using window_at_index [OF assms, of 0] window_at_index [OF assms, of 1]
    window_at_index [OF assms, of 2] window_at_index [OF assms, of 3]
    window_at_index [OF assms, of 4] window_at_index [OF assms, of 5]
  by simp_all

lemma js_or_zero [simp]: "js_or a 0 = a"
  by (simp add: js_or_def)

lemma max_js_or_one [simp]: "max (js_or a 1) 1 = max a 1"
  by (simp add: js_or_def)

lemma window_constants:
  assumes "at_index scans 0 = Some s0" and "at_index scans 2 = Some s2"
    and "at_index scans 3 = Some s3" and "at_index scans 4 = Some s4"
    and "at_index scans 5 = Some s5"
  shows "beforePlateau scans = Inr (\<bar>views s0 - views s2\<bar> \<le> 30)"
    and "hasJump scans = Inr (views s3 - views s2 \<ge> 500)"
    and "consecutivePlateau scans
           = Inr (\<bar>views s3 - views s4\<bar> \<le> 30 \<and> \<bar>views s4 - views s5\<bar> \<le> 30)"
    and "overallChangeAbs scans = Inr \<bar>views s5 - views s3\<bar>"
    and "overallChangeRel scans
           = Inr (of_int \<bar>views s5 - views s3\<bar> / of_int (max (views s3) 1))"
proof -
  show "beforePlateau scans = Inr (\<bar>views s0 - views s2\<bar> \<le> 30)"
    by (simp add: beforePlateau_def assms isPlateau_def)
  show "hasJump scans = Inr (views s3 - views s2 \<ge> 500)"
    by (simp add: hasJump_def assms)
  show "consecutivePlateau scans
           = Inr (\<bar>views s3 - views s4\<bar> \<le> 30 \<and> \<bar>views s4 - views s5\<bar> \<le> 30)"
    by (simp add: consecutivePlateau_def assms isPlateau_def)
  show "overallChangeAbs scans = Inr \<bar>views s5 - views s3\<bar>"
    by (simp add: overallChangeAbs_def assms)
  show "overallChangeRel scans
           = Inr (of_int \<bar>views s5 - views s3\<bar> / of_int (max (views s3) 1))"
    by (simp add: overallChangeRel_def assms)
qed

lemma plateauCondition_six:
  assumes "at_index scans 0 = Some s0" and "at_index scans 2 = Some s2"
    and "at_index scans 3 = Some s3" and "at_index scans 4 = Some s4"
    and "at_index scans 5 = Some s5"
  shows "plateauCondition scans
           = Inr (\<bar>views s0 - views s2\<bar> \<le> 30 \<and> views s3 - views s2 \<ge> 500
                  \<and> (\<bar>views s3 - views s4\<bar> \<le> 30 \<and> \<bar>views s4 - views s5\<bar> \<le> 30)
                  \<and> (\<bar>views s5 - views s3\<bar> \<le> 30
                      \<or> (of_int \<bar>views s5 - views s3\<bar> :: rat) / of_int (max (views s3) 1) \<le> 0.1))"
  unfolding plateauCondition_def window_constants [OF assms]
  by (simp only: thenE_Inr)


subsection \<open>Run summaries\<close>

lemma summarizeLoop_none:
  "\<forall>s\<in>set xs. \<not> cond s
     \<Longrightarrow> summarizeLoop cond line m (xs @ ys) i None msgs
         = summarizeLoop cond line m ys (i + length xs) None msgs"
  by (induction xs arbitrary: i) simp_all

lemma summarizeLoop_inside:
  "\<forall>s\<in>set xs. cond s
     \<Longrightarrow> summarizeLoop cond line m (xs @ ys) i (Some a) msgs
         = summarizeLoop cond line m ys (i + length xs) (Some a) msgs"
  by (induction xs arbitrary: i) simp_all

lemma summarizeLoop_single_run:
  assumes pre: "\<forall>s\<in>set pre. \<not> cond s" and run: "\<forall>s\<in>set run. cond s" and ne: "run \<noteq> []"
    and post: "\<forall>s\<in>set post. \<not> cond s"
  shows "summarizeLoop cond line m (pre @ run @ post) 0 None []
           = (if post = [] then (Some (length pre), [])
              else (None, if int (length run) \<ge> m
                          then [line (length pre + 1) (length pre + length run) (length run)]
                          else []))"
proof -
  from ne obtain r rs where r: "run = r # rs" by (cases run) auto
  with run have c: "cond r" and rs: "\<forall>s\<in>set rs. cond s" by auto
  have "summarizeLoop cond line m (pre @ run @ post) 0 None []
          = summarizeLoop cond line m (run @ post) (length pre) None []"
    using summarizeLoop_none [OF pre, of line m "run @ post" 0 "[]"] by simp
  also have "\<dots> = summarizeLoop cond line m (rs @ post) (length pre + 1) (Some (length pre)) []"
    using c by (simp add: r)
  also have "\<dots> = summarizeLoop cond line m post (length pre + length run) (Some (length pre)) []"
    using summarizeLoop_inside [OF rs, of line m post "length pre + 1" "length pre" "[]"]
    by (simp add: r)
  also have "\<dots> = (if post = [] then (Some (length pre), [])
              else (None, if int (length run) \<ge> m
                          then [line (length pre + 1) (length pre + length run) (length run)]
                          else []))"
  proof (cases post)
    case Nil
    then show ?thesis by simp
  next
    case (Cons y ys)
    with post have y: "\<not> cond y" and ys: "\<forall>s\<in>set ys. \<not> cond s" by auto
    show ?thesis
      using y summarizeLoop_none [OF ys, of line m "[]"] by (simp add: Cons)
  qed
  finally show ?thesis .
qed

lemma summarizeRuns_single_run:
  assumes "\<forall>s\<in>set pre. \<not> cond s" and "\<forall>s\<in>set run. cond s" and "run \<noteq> []"
    and "\<forall>s\<in>set post. \<not> cond s"
  shows "summarizeRuns cond line m (pre @ run @ post)
           = (if int (length run) \<ge> m
              then [line (length pre + 1) (length pre + length run) (length run)]
              else [])"
  by (simp add: summarizeRuns_def summarizeLoop_single_run [OF assms])


subsection \<open>The callers\<close>

lemma summarizeRuns_single:
  "summarizeRuns cond line m [s] = (if cond s \<and> m \<le> 1 then [line 1 1 1] else [])"
  by (simp add: summarizeRuns_def)

subsection \<open>Evaluated examples\<close>

lemma toFixed_examples: "toFixed 5 2 = ''5.00''" "toFixed (1/4) 2 = ''0.25''"
  by code_simp+

lemma example_doubled_messages:
  "triggeredMessages (transition ''tiktok'' [mkScan 100 5 1 1 1, mkScan 2000 5 1 1 1] 1)
     = [viewsDoubledLikesFlatMsg, viewsGrewLikesFrozenMsg,
        ''massive view jump with like-ratio collapse (5.00% '' @ arrow @ '' 0.25%)'']"
  by (simp add: eval_defs likeRatioCollapseMsg_def toFixed_examples)

lemma showInt_examples:
  "showInt 1000 = ''1000''" "showInt 1010 = ''1010''" "showInt 995 = ''995''"
  "showInt 1600 = ''1600''" "showInt 1605 = ''1605''" "showInt 1590 = ''1590''"
  by code_simp+

lemma showInt_small: "showInt 1 = ''1''" "showInt 2 = ''2''" "showInt 3 = ''3''"
  "showInt 4 = ''4''" "showInt 5 = ''5''" "showInt 6 = ''6''" "showInt 7 = ''7''"
  by code_simp+

lemma clean_pair_reported_clean:
  "analyzeUrl ''u'' ''tiktok'' [mkScan 1000 50 5 5 5, mkScan 1100 55 5 5 5] False
     = Inr \<lparr>url = ''u'', platform_r = ''tiktok'', scanCount = 2, flagged = [],
            perScan = [(1, [])], zeroCommentSummaries = Some [],
            lowCommentRatioSummaries = Some []\<rparr>"
  by code_simp

section \<open>The claims\<close>

text \<open>
  C10. For every input to \<^verbatim>\<open>detectBotAlgo\<close>, a non-empty returned \<^verbatim>\<open>bottedReason\<close>
  implies that \<^verbatim>\<open>shouldReject\<close> is true: every statement that appends a fragment also
  sets the flag (\<open>flagIf_reason\<close>, \<open>flagIf_reject\<close>, \<open>checkAnomaly_reason\<close>,
  \<open>checkAnomaly_reject\<close>), and the Snapchat rule, which sets the flag alone, appends
  nothing.
\<close>
theorem reason_implies_reject:
  "bottedReason (detectBotAlgo p) \<noteq> [] \<Longrightarrow> shouldReject (detectBotAlgo p)"
proof -
  assume "bottedReason (detectBotAlgo p) \<noteq> []"
  then have "triggeredMessages p \<noteq> []"
    by (simp add: detectBotAlgo_reason)
  then show "shouldReject (detectBotAlgo p)"
    by (simp add: detectBotAlgo_reject)
qed

theorem reason_implies_reject_witness:
  "bottedReason (detectBotAlgo (transition ''tiktok'' [mkScan 100 5 1 1 1, mkScan 2000 5 1 1 1] 1)) \<noteq> []
   \<and> shouldReject (detectBotAlgo (transition ''tiktok'' [mkScan 100 5 1 1 1, mkScan 2000 5 1 1 1] 1))"
proof -
  have h: "bottedReason (detectBotAlgo (transition ''tiktok'' [mkScan 100 5 1 1 1, mkScan 2000 5 1 1 1] 1)) \<noteq> []"
    by (simp only: detectBotAlgo_reason example_doubled_messages) simp
  from reason_implies_reject [OF h] h show ?thesis by simp
qed

text \<open>
  C1, as stated, fails: on Snapchat a scan with more than 20000 views, no comments and at
  most one share is rejected with the empty reason. The source says so in a comment
  (the message is left to the later summary).
\<close>
theorem snapchat_reject_without_reason:
  "shouldReject (detectBotAlgo
      (transition ''snapchat'' [mkScan 30000 0 0 0 0, mkScan 30000 0 0 0 0] 1))
   \<and> bottedReason (detectBotAlgo
      (transition ''snapchat'' [mkScan 30000 0 0 0 0, mkScan 30000 0 0 0 0] 1)) = []"
proof -
  have a: "triggeredMessages
      (transition ''snapchat'' [mkScan 30000 0 0 0 0, mkScan 30000 0 0 0 0] 1) = []"
    by (simp add: eval_defs)
  have b: "snapchatUltraLowEngagement
      (transition ''snapchat'' [mkScan 30000 0 0 0 0, mkScan 30000 0 0 0 0] 1)"
    by (simp add: eval_defs)
  show ?thesis
    by (simp only: detectBotAlgo_reason detectBotAlgo_reject a b) simp
qed

text \<open>
  C1, amended. For every input, \<^verbatim>\<open>bottedReason\<close> is the list of the messages of the
  message-bearing rules that fired, in rule order, each with a newline before it:
  splitting the reason at newlines gives the empty piece and then exactly these messages,
  none of them empty. It is empty exactly when no such rule fired. \<^verbatim>\<open>shouldReject\<close> is
  true exactly when the reason is non-empty or the Snapchat ultra-low-engagement rule
  fired, the one rule that rejects without a fragment.
\<close>
theorem reason_fragments_of_triggered_rules:
  "bottedReason (detectBotAlgo p) = fragments (triggeredMessages p)
   \<and> splitOn newline (bottedReason (detectBotAlgo p)) = [] # triggeredMessages p
   \<and> [] \<notin> set (triggeredMessages p)
   \<and> (bottedReason (detectBotAlgo p) = [] \<longleftrightarrow> triggeredMessages p = [])
   \<and> (shouldReject (detectBotAlgo p)
        \<longleftrightarrow> bottedReason (detectBotAlgo p) \<noteq> [] \<or> snapchatUltraLowEngagement p)"
proof -
  have "[] \<notin> set (sharesSavesMessages p)"
    using sharesSavesMessages_prefix [of "[]" p] by auto
  then have "[] \<notin> set (triggeredMessages p)"
    by (simp add: triggeredMessages_def message_defs Let_def)
  then show ?thesis
    using reason_lines [of p] by (simp add: detectBotAlgo_reason detectBotAlgo_reject)
qed

theorem reason_fragments_of_triggered_rules_witness:
  "bottedReason (detectBotAlgo
      (transition ''tiktok'' [mkScan 100 5 1 1 1, mkScan 2000 5 1 1 1] 1))
     = newline # viewsDoubledLikesFlatMsg @ newline # viewsGrewLikesFrozenMsg
       @ newline # ''massive view jump with like-ratio collapse (5.00% '' @ arrow @ '' 0.25%)''
   \<and> shouldReject (detectBotAlgo
      (transition ''tiktok'' [mkScan 100 5 1 1 1, mkScan 2000 5 1 1 1] 1))"
  using reason_fragments_of_triggered_rules
    [of "transition ''tiktok'' [mkScan 100 5 1 1 1, mkScan 2000 5 1 1 1] 1"]
  by (simp only: example_doubled_messages) simp

text \<open>
  C2, as stated, fails on its boundary case: with likes 50 \<open>\<rightarrow>\<close> 60 (exactly 1.2 times) and
  views 1000 \<open>\<rightarrow>\<close> 2500 on TikTok the rule does not fire, and the whole response is clean.
  The comparison of the source is strict.
\<close>
theorem views_doubled_boundary_not_flagged:
  "platform (transition ''tiktok'' [mkScan 1000 50 1 1 1, mkScan 2500 60 1 1 1] 1) \<noteq> ''youtube''
   \<and> platform (transition ''tiktok'' [mkScan 1000 50 1 1 1, mkScan 2500 60 1 1 1] 1) \<noteq> ''snapchat''
   \<and> currViews (getEffectivePair
        (transition ''tiktok'' [mkScan 1000 50 1 1 1, mkScan 2500 60 1 1 1] 1) Likes) > 1000
   \<and> currViews (getEffectivePair
        (transition ''tiktok'' [mkScan 1000 50 1 1 1, mkScan 2500 60 1 1 1] 1) Likes)
       > 2 * prevViews (getEffectivePair
        (transition ''tiktok'' [mkScan 1000 50 1 1 1, mkScan 2500 60 1 1 1] 1) Likes)
   \<and> (of_int (curr (getEffectivePair
        (transition ''tiktok'' [mkScan 1000 50 1 1 1, mkScan 2500 60 1 1 1] 1) Likes)) :: rat)
       = 1.2 * of_int (prev (getEffectivePair
        (transition ''tiktok'' [mkScan 1000 50 1 1 1, mkScan 2500 60 1 1 1] 1) Likes))
   \<and> \<not> viewsDoubledLikesFlat
        (transition ''tiktok'' [mkScan 1000 50 1 1 1, mkScan 2500 60 1 1 1] 1)
   \<and> detectBotAlgo (transition ''tiktok'' [mkScan 1000 50 1 1 1, mkScan 2500 60 1 1 1] 1)
       = \<lparr>shouldReject = False, bottedReason = []\<rparr>"
proof -
  have a: "triggeredMessages
      (transition ''tiktok'' [mkScan 1000 50 1 1 1, mkScan 2500 60 1 1 1] 1) = []"
    by (simp add: eval_defs)
  have b: "\<not> snapchatUltraLowEngagement
      (transition ''tiktok'' [mkScan 1000 50 1 1 1, mkScan 2500 60 1 1 1] 1)"
    by (simp add: eval_defs)
  have c: "detectBotAlgo (transition ''tiktok'' [mkScan 1000 50 1 1 1, mkScan 2500 60 1 1 1] 1)
       = \<lparr>shouldReject = False, bottedReason = []\<rparr>"
    by (rule BotDetectorAlgoResponse.equality)
      (simp_all only: detectBotAlgo_reason detectBotAlgo_reject a b, simp_all)
  show ?thesis
    unfolding c by (simp add: eval_defs)
qed

text \<open>
  C2, amended. On a platform other than youtube and snapchat, the rule "views doubled,
  likes flat" fires exactly when the bridged likes pair has \<open>currViews > 1000\<close>,
  \<open>currViews > 2 \<sqdot> prevViews\<close> and \<open>curr < 1.2 \<sqdot> prev\<close> (strictly: it does not fire when
  \<open>curr\<close> equals \<open>1.2 \<sqdot> prev\<close>); its message is a line of the reason exactly then, and then
  the response rejects.
\<close>
theorem views_doubled_rule:
  assumes "platform p \<noteq> ''youtube''" and "platform p \<noteq> ''snapchat''"
  shows "(viewsDoubledLikesFlat p
           \<longleftrightarrow> currViews (getEffectivePair p Likes) > 1000
             \<and> currViews (getEffectivePair p Likes) > 2 * prevViews (getEffectivePair p Likes)
             \<and> (of_int (curr (getEffectivePair p Likes)) :: rat)
                 < 1.2 * of_int (prev (getEffectivePair p Likes)))
         \<and> (viewsDoubledLikesFlatMsg \<in> set (splitOn newline (bottedReason (detectBotAlgo p)))
             \<longleftrightarrow> viewsDoubledLikesFlat p)
         \<and> (viewsDoubledLikesFlat p \<longrightarrow> shouldReject (detectBotAlgo p))"
proof -
  have "viewsDoubledLikesFlatMsg \<noteq> []" by (simp add: viewsDoubledLikesFlatMsg_def)
  then have "viewsDoubledLikesFlatMsg \<in> set (splitOn newline (bottedReason (detectBotAlgo p)))
       \<longleftrightarrow> viewsDoubledLikesFlat p"
    by (auto simp: reason_lines viewsDoubledLikesFlatMsg_triggered)
  moreover have "viewsDoubledLikesFlat p \<longrightarrow> shouldReject (detectBotAlgo p)"
    using viewsDoubledLikesFlatMsg_triggered [of p] by (auto simp: detectBotAlgo_reject)
  ultimately show ?thesis
    using assms by (simp add: viewsDoubledLikesFlat_def Let_def mult.commute)
qed

theorem views_doubled_rule_witness:
  "viewsDoubledLikesFlat (transition ''tiktok'' [mkScan 100 5 1 1 1, mkScan 2000 5 1 1 1] 1)
   \<and> viewsDoubledLikesFlatMsg \<in> set (splitOn newline (bottedReason (detectBotAlgo
        (transition ''tiktok'' [mkScan 100 5 1 1 1, mkScan 2000 5 1 1 1] 1))))
   \<and> shouldReject (detectBotAlgo
        (transition ''tiktok'' [mkScan 100 5 1 1 1, mkScan 2000 5 1 1 1] 1))"
proof -
  have a: "platform (transition ''tiktok'' [mkScan 100 5 1 1 1, mkScan 2000 5 1 1 1] 1) \<noteq> ''youtube''"
    and b: "platform (transition ''tiktok'' [mkScan 100 5 1 1 1, mkScan 2000 5 1 1 1] 1) \<noteq> ''snapchat''"
    by (simp_all add: transition_def)
  have c: "currViews (getEffectivePair (transition ''tiktok'' [mkScan 100 5 1 1 1, mkScan 2000 5 1 1 1] 1) Likes) > 1000
     \<and> currViews (getEffectivePair (transition ''tiktok'' [mkScan 100 5 1 1 1, mkScan 2000 5 1 1 1] 1) Likes)
        > 2 * prevViews (getEffectivePair (transition ''tiktok'' [mkScan 100 5 1 1 1, mkScan 2000 5 1 1 1] 1) Likes)
     \<and> (of_int (curr (getEffectivePair (transition ''tiktok'' [mkScan 100 5 1 1 1, mkScan 2000 5 1 1 1] 1) Likes)) :: rat)
         < 1.2 * of_int (prev (getEffectivePair (transition ''tiktok'' [mkScan 100 5 1 1 1, mkScan 2000 5 1 1 1] 1) Likes))"
    by (simp add: eval_defs)
  from views_doubled_rule [OF a b] c show ?thesis by blast
qed

text \<open>
  C3. For a series of three scans whose likes are 100, 0, 120 (any views, any platform),
  at the transition into the middle scan with the whole series passed: \<^verbatim>\<open>glitchLikes\<close>
  holds, neither the "zero likes" rule nor the "views grew but <2 likes change" rule
  fires (no such line in the reason), and \<^verbatim>\<open>getEffectivePair('likes')\<close> is the bridged
  pair \<open>prev = 100\<close>, \<open>curr = 120\<close> with the views of the first and the third scan.
\<close>
theorem glitch_suppression:
  assumes "likes s0 = 100" and "likes s1 = 0" and "likes s2 = 120"
  shows "glitchLikes (transition pf [s0, s1, s2] 1)
         \<and> \<not> zeroLikes (transition pf [s0, s1, s2] 1)
         \<and> \<not> viewsGrewLikesFrozen (transition pf [s0, s1, s2] 1)
         \<and> zeroLikesMsg \<notin> set (splitOn newline (bottedReason
               (detectBotAlgo (transition pf [s0, s1, s2] 1))))
         \<and> viewsGrewLikesFrozenMsg \<notin> set (splitOn newline (bottedReason
               (detectBotAlgo (transition pf [s0, s1, s2] 1))))
         \<and> getEffectivePair (transition pf [s0, s1, s2] 1) Likes
             = \<lparr>prev = 100, curr = 120, prevViews = views s0, currViews = views s2,
                bridged = True\<rparr>"
proof -
  let ?p = "transition pf [s0, s1, s2] 1"
  have g: "glitchLikes ?p"
    using assms
    by (simp add: glitchLikes_def glitch_def transition_def nextScan_def hasNext_def
        at_index_def isZeroish_def isNumber_def toNum_def)
  then have z: "\<not> zeroLikes ?p" and v: "\<not> viewsGrewLikesFrozen ?p"
    by (simp_all add: zeroLikes_def viewsGrewLikesFrozen_def Let_def)
  have e: "getEffectivePair ?p Likes
      = \<lparr>prev = 100, curr = 120, prevViews = views s0, currViews = views s2, bridged = True\<rparr>"
    using assms
    by (simp add: getEffectivePair_def transition_def nextScan_def hasNext_def
        at_index_def isZeroish_def isNumber_def toNum_def Let_def)
  have "zeroLikesMsg \<noteq> []" "viewsGrewLikesFrozenMsg \<noteq> []"
    by (simp_all add: zeroLikesMsg_def viewsGrewLikesFrozenMsg_def)
  then have "zeroLikesMsg \<notin> set (splitOn newline (bottedReason (detectBotAlgo ?p)))"
    "viewsGrewLikesFrozenMsg \<notin> set (splitOn newline (bottedReason (detectBotAlgo ?p)))"
    using z v by (auto simp: reason_lines zeroLikesMsg_triggered viewsGrewLikesFrozenMsg_triggered)
  with g z v e show ?thesis by blast
qed

theorem glitch_suppression_witness:
  "glitchLikes (transition ''tiktok''
      [mkScan 5000 100 3 2 1, mkScan 5010 0 3 2 1, mkScan 5020 120 3 2 1] 1)
   \<and> getEffectivePair (transition ''tiktok''
      [mkScan 5000 100 3 2 1, mkScan 5010 0 3 2 1, mkScan 5020 120 3 2 1] 1) Likes
       = \<lparr>prev = 100, curr = 120, prevViews = 5000, currViews = 5020, bridged = True\<rparr>
   \<and> zeroLikesMsg \<notin> set (splitOn newline (bottedReason (detectBotAlgo (transition ''tiktok''
      [mkScan 5000 100 3 2 1, mkScan 5010 0 3 2 1, mkScan 5020 120 3 2 1] 1))))"
  using glitch_suppression [of "mkScan 5000 100 3 2 1" "mkScan 5010 0 3 2 1"
      "mkScan 5020 120 3 2 1" "''tiktok''"]
  by (simp add: mkScan_def)

text \<open>
  C5. At a mature transition \<open>i\<close> with \<open>i\<close> minus the number of leading zero-view scans
  below 4, the early-view-jump rule appends its message
  (\<^verbatim>\<open>early 20k+ view jump within first 5 scans\<close>) and sets \<^verbatim>\<open>shouldReject\<close> exactly when
  the views grew by at least 20000; the message is a line of the reason exactly then.
  The witness has views 0 \<open>\<rightarrow>\<close> 20000, which fires, and 0 \<open>\<rightarrow>\<close> 19999, which does not.
\<close>
theorem early_view_jump_rule:
  assumes "scanIndex p = Some i" and "i \<ge> 1" and "i - leadingZeroCount p < 4"
  shows "(earlyViewJump p \<longleftrightarrow> views (currentScan p) - views (prevScan p) \<ge> 20000)
         \<and> flagIf (earlyViewJump p) earlyViewJumpMsg st
             = (if views (currentScan p) - views (prevScan p) \<ge> 20000
                then st\<lparr>bottedReason := bottedReason st @ newline
                           # ''early 20k+ view jump within first 5 scans'',
                        shouldReject := True\<rparr>
                else st)
         \<and> (earlyViewJumpMsg \<in> set (splitOn newline (bottedReason (detectBotAlgo p)))
             \<longleftrightarrow> views (currentScan p) - views (prevScan p) \<ge> 20000)
         \<and> (views (currentScan p) - views (prevScan p) \<ge> 20000
             \<longrightarrow> shouldReject (detectBotAlgo p))"
proof -
  have a: "earlyViewJump p \<longleftrightarrow> views (currentScan p) - views (prevScan p) \<ge> 20000"
    using assms by (simp add: earlyViewJump_def matureScan_def)
  have "earlyViewJumpMsg \<noteq> []" by (simp add: earlyViewJumpMsg_def)
  then have b: "earlyViewJumpMsg \<in> set (splitOn newline (bottedReason (detectBotAlgo p)))
       \<longleftrightarrow> earlyViewJump p"
    by (auto simp: reason_lines earlyViewJumpMsg_triggered)
  have c: "earlyViewJump p \<longrightarrow> shouldReject (detectBotAlgo p)"
    using earlyViewJumpMsg_triggered [of p] by (auto simp: detectBotAlgo_reject)
  have d: "flagIf (earlyViewJump p) earlyViewJumpMsg st
             = (if views (currentScan p) - views (prevScan p) \<ge> 20000
                then st\<lparr>bottedReason := bottedReason st @ newline
                           # ''early 20k+ view jump within first 5 scans'',
                        shouldReject := True\<rparr>
                else st)"
    unfolding a flagIf_def reject_with_def earlyViewJumpMsg_def ..
  from a b c d show ?thesis by simp
qed

theorem early_view_jump_rule_witness:
  "earlyViewJump (transition ''tiktok'' [mkScan 0 0 0 0 0, mkScan 20000 900 30 20 10] 1)
   \<and> earlyViewJumpMsg \<in> set (splitOn newline (bottedReason (detectBotAlgo
        (transition ''tiktok'' [mkScan 0 0 0 0 0, mkScan 20000 900 30 20 10] 1))))
   \<and> shouldReject (detectBotAlgo
        (transition ''tiktok'' [mkScan 0 0 0 0 0, mkScan 20000 900 30 20 10] 1))
   \<and> \<not> earlyViewJump (transition ''tiktok'' [mkScan 0 0 0 0 0, mkScan 19999 900 30 20 10] 1)
   \<and> earlyViewJumpMsg \<notin> set (splitOn newline (bottedReason (detectBotAlgo
        (transition ''tiktok'' [mkScan 0 0 0 0 0, mkScan 19999 900 30 20 10] 1))))"
proof -
  have a: "scanIndex (transition ''tiktok'' [mkScan 0 0 0 0 0, mkScan 20000 900 30 20 10] 1)
             = Some 1"
    and b: "(1::int) - leadingZeroCount
             (transition ''tiktok'' [mkScan 0 0 0 0 0, mkScan 20000 900 30 20 10] 1) < 4"
    and c: "views (currentScan
             (transition ''tiktok'' [mkScan 0 0 0 0 0, mkScan 20000 900 30 20 10] 1))
            - views (prevScan
             (transition ''tiktok'' [mkScan 0 0 0 0 0, mkScan 20000 900 30 20 10] 1))
            \<ge> 20000"
    by (simp_all add: transition_def mkScan_def leadingZeroCount_def)
  have a': "scanIndex (transition ''tiktok'' [mkScan 0 0 0 0 0, mkScan 19999 900 30 20 10] 1)
             = Some 1"
    and b': "(1::int) - leadingZeroCount
             (transition ''tiktok'' [mkScan 0 0 0 0 0, mkScan 19999 900 30 20 10] 1) < 4"
    and c': "\<not> views (currentScan
             (transition ''tiktok'' [mkScan 0 0 0 0 0, mkScan 19999 900 30 20 10] 1))
            - views (prevScan
             (transition ''tiktok'' [mkScan 0 0 0 0 0, mkScan 19999 900 30 20 10] 1))
            \<ge> 20000"
    by (simp_all add: transition_def mkScan_def leadingZeroCount_def)
  from early_view_jump_rule [OF a _ b] early_view_jump_rule [OF a' _ b'] c c'
  show ?thesis by simp
qed

text \<open>
  C6. When the platform is not youtube, the series has at least 6 scans and a scan index
  is given, let \<open>w 0\<close>, ..., \<open>w 5\<close> be the views of the six scans from position
  \<open>max 0 (min (scanIndex - 3) (length - 6))\<close> on. The plateau-jump-plateau rule fires
  exactly when \<open>\<bar>w 0 - w 2\<bar> \<le> 30\<close>, \<open>w 3 - w 2 \<ge> 500\<close>, \<open>\<bar>w 3 - w 4\<bar> \<le> 30\<close>,
  \<open>\<bar>w 4 - w 5\<bar> \<le> 30\<close> and (\<open>\<bar>w 5 - w 3\<bar> \<le> 30\<close> or \<open>\<bar>w 5 - w 3\<bar> / max (w 3) 1 \<le> 0.1\<close>);
  its message carries the six values; the message is a line of the reason exactly
  when the rule fires, and then the response rejects. The witness has the views
  1000, 1010, 995, 1600, 1605, 1590, which reject, and the same window with the jump
  reduced to +100, which does not fire the rule.
\<close>
theorem plateau_jump_plateau_rule:
  fixes xs :: "ScanData list"
  assumes "platform p \<noteq> ''youtube''" and "allScans p = Some xs" and "length xs \<ge> 6"
    and "scanIndex p = Some i"
  defines "w \<equiv> \<lambda>k. views (xs ! (nat (max 0 (min (i - 3) (int (length xs) - 6))) + k))"
  shows "(plateauJumpPlateau p
           \<longleftrightarrow> \<bar>w 0 - w 2\<bar> \<le> 30 \<and> w 3 - w 2 \<ge> 500 \<and> \<bar>w 3 - w 4\<bar> \<le> 30 \<and> \<bar>w 4 - w 5\<bar> \<le> 30
             \<and> (\<bar>w 5 - w 3\<bar> \<le> 30 \<or> (of_int \<bar>w 5 - w 3\<bar> :: rat) / of_int (max (w 3) 1) \<le> 0.1))
         \<and> plateauJumpPlateauMsg p
             = ''suspicious plateau '' @ arrow @ '' jump '' @ arrow @ '' plateau pattern (views: ''
               @ showInt (w 0) @ '' '' @ arrow @ '' '' @ showInt (w 1) @ '' '' @ arrow @ '' ''
               @ showInt (w 2) @ '' '' @ arrow @ '' '' @ showInt (w 3) @ '' '' @ arrow @ '' ''
               @ showInt (w 4) @ '' '' @ arrow @ '' '' @ showInt (w 5) @ '')''
         \<and> (plateauJumpPlateauMsg p \<in> set (splitOn newline (bottedReason (detectBotAlgo p)))
             \<longleftrightarrow> plateauJumpPlateau p)
         \<and> (plateauJumpPlateau p \<longrightarrow> shouldReject (detectBotAlgo p))"
proof -
  note idx = window_at_index_numerals [OF assms(2,3,4)]
  have g: "windowGuard p" using assms(1-4) by (simp add: windowGuard_def)
  have a: "plateauJumpPlateau p
           \<longleftrightarrow> \<bar>w 0 - w 2\<bar> \<le> 30 \<and> w 3 - w 2 \<ge> 500 \<and> \<bar>w 3 - w 4\<bar> \<le> 30 \<and> \<bar>w 4 - w 5\<bar> \<le> 30
             \<and> (\<bar>w 5 - w 3\<bar> \<le> 30 \<or> (of_int \<bar>w 5 - w 3\<bar> :: rat) / of_int (max (w 3) 1) \<le> 0.1)"
    unfolding plateauJumpPlateau_def w_def
      plateauCondition_six [OF idx(1) idx(3) idx(4) idx(5) idx(6)]
    using g by (simp only: sum.inject simp_thms add_0_right conj_assoc)
  have b: "plateauJumpPlateauMsg p
             = ''suspicious plateau '' @ arrow @ '' jump '' @ arrow @ '' plateau pattern (views: ''
               @ showInt (w 0) @ '' '' @ arrow @ '' '' @ showInt (w 1) @ '' '' @ arrow @ '' ''
               @ showInt (w 2) @ '' '' @ arrow @ '' '' @ showInt (w 3) @ '' '' @ arrow @ '' ''
               @ showInt (w 4) @ '' '' @ arrow @ '' '' @ showInt (w 5) @ '')''"
    by (simp add: plateauJumpPlateauMsg_def viewsTrace_def windowViews_def idx w_def)
  have "plateauJumpPlateauMsg p \<noteq> []" by (simp add: plateauJumpPlateauMsg_def)
  then have c: "plateauJumpPlateauMsg p \<in> set (splitOn newline (bottedReason (detectBotAlgo p)))
       \<longleftrightarrow> plateauJumpPlateau p"
    by (auto simp: reason_lines plateauJumpPlateauMsg_triggered)
  have d: "plateauJumpPlateau p \<longrightarrow> shouldReject (detectBotAlgo p)"
    using plateauJumpPlateauMsg_triggered [of p] by (auto simp: detectBotAlgo_reject)
  from a b c d show ?thesis by blast
qed

theorem plateau_jump_plateau_rule_witness:
  "plateauJumpPlateau (transition ''tiktok'' plateauSeries 3)
   \<and> ''suspicious plateau '' @ arrow @ '' jump '' @ arrow @ '' plateau pattern (views: 1000 ''
       @ arrow @ '' 1010 '' @ arrow @ '' 995 '' @ arrow @ '' 1600 '' @ arrow @ '' 1605 ''
       @ arrow @ '' 1590)''
       \<in> set (splitOn newline (bottedReason (detectBotAlgo (transition ''tiktok'' plateauSeries 3))))
   \<and> shouldReject (detectBotAlgo (transition ''tiktok'' plateauSeries 3))
   \<and> \<not> plateauJumpPlateau (transition ''tiktok'' smallJumpSeries 3)
   \<and> plateauJumpPlateauMsg (transition ''tiktok'' smallJumpSeries 3)
       \<notin> set (splitOn newline (bottedReason (detectBotAlgo (transition ''tiktok'' smallJumpSeries 3))))"
proof -
  have p: "platform (transition ''tiktok'' plateauSeries 3) \<noteq> ''youtube''"
    "allScans (transition ''tiktok'' plateauSeries 3) = Some plateauSeries"
    "length plateauSeries \<ge> 6"
    "scanIndex (transition ''tiktok'' plateauSeries 3) = Some 3"
    by (simp_all add: transition_def plateauSeries_def)
  have q: "platform (transition ''tiktok'' smallJumpSeries 3) \<noteq> ''youtube''"
    "allScans (transition ''tiktok'' smallJumpSeries 3) = Some smallJumpSeries"
    "length smallJumpSeries \<ge> 6"
    "scanIndex (transition ''tiktok'' smallJumpSeries 3) = Some 3"
    by (simp_all add: transition_def smallJumpSeries_def)
  note r = plateau_jump_plateau_rule [OF p]
  note r' = plateau_jump_plateau_rule [OF q]
  have f: "plateauJumpPlateau (transition ''tiktok'' plateauSeries 3)"
    using r by (simp add: plateauSeries_def mkScan_def)
  have m: "plateauJumpPlateauMsg (transition ''tiktok'' plateauSeries 3)
      = ''suspicious plateau '' @ arrow @ '' jump '' @ arrow @ '' plateau pattern (views: 1000 ''
       @ arrow @ '' 1010 '' @ arrow @ '' 995 '' @ arrow @ '' 1600 '' @ arrow @ '' 1605 ''
       @ arrow @ '' 1590)''"
    using r by (simp add: plateauSeries_def mkScan_def showInt_examples)
  have l: "plateauJumpPlateauMsg (transition ''tiktok'' plateauSeries 3)
       \<in> set (splitOn newline (bottedReason (detectBotAlgo (transition ''tiktok'' plateauSeries 3))))"
    and j: "shouldReject (detectBotAlgo (transition ''tiktok'' plateauSeries 3))"
    using r f by blast+
  have f': "\<not> plateauJumpPlateau (transition ''tiktok'' smallJumpSeries 3)"
    using r' by (simp add: smallJumpSeries_def mkScan_def)
  with r' have l': "plateauJumpPlateauMsg (transition ''tiktok'' smallJumpSeries 3)
       \<notin> set (splitOn newline (bottedReason (detectBotAlgo (transition ''tiktok'' smallJumpSeries 3))))"
    by blast
  from f l [unfolded m] j f' l' show ?thesis by blast
qed

text \<open>
  C8. Let a series consist of scans \<open>pre\<close> none of which has \<open>views > 1000\<close> and
  \<open>likes = 0\<close>, then a non-empty run of scans that all have it, then scans \<open>post\<close>
  none of which has it (so the run is the only maximal run; \<open>post\<close> may be empty, the
  run then reaching the end of the series). With \<open>minViews = 1000\<close> and \<open>minRun = 5\<close>,
  \<^verbatim>\<open>summarizeZeroLikes\<close> returns exactly one line when the run has at least 5 scans,
  \<^verbatim>\<open>Scans a-b: zero likes across N scans (may be hidden likes)\<close> (the dash an en dash),
  \<open>a\<close> and \<open>b\<close> the 1-based positions of the first and last scan of the run and \<open>N\<close> its
  length, and no line when the run is shorter. The witness has five such scans followed
  by a scan with likes, a run of six at the end of a series, and a run of four.
\<close>
theorem summarizeZeroLikes_single_run:
  assumes "\<forall>s\<in>set pre. \<not> (views s > 1000 \<and> likes s = 0)"
    and "\<forall>s\<in>set run. views s > 1000 \<and> likes s = 0"
    and "run \<noteq> []"
    and "\<forall>s\<in>set post. \<not> (views s > 1000 \<and> likes s = 0)"
  shows "summarizeZeroLikes (pre @ run @ post) pf 1000 5
           = (if length run \<ge> 5
              then [''Scans '' @ showInt (int (length pre + 1)) @ en_dash
                      @ showInt (int (length pre + length run))
                      @ '': zero likes across '' @ showInt (int (length run))
                      @ '' scans (may be hidden likes)'']
              else [])"
  unfolding summarizeZeroLikes_def
  using summarizeRuns_single_run
    [of pre "\<lambda>s. views s > 1000 \<and> likes s = 0" run post zeroLikesLine 5, OF assms]
  by (simp add: zeroLikesLine_def scansRange_def)

theorem summarizeZeroLikes_single_run_witness:
  "summarizeZeroLikes
     (replicate 5 (mkScan 2000 0 1 1 1) @ [mkScan 2000 10 1 1 1]) ''tiktok'' 1000 5
     = [''Scans 1'' @ en_dash @ ''5: zero likes across 5 scans (may be hidden likes)'']
   \<and> summarizeZeroLikes
     ([mkScan 500 0 1 1 1] @ replicate 6 (mkScan 2000 0 1 1 1)) ''tiktok'' 1000 5
     = [''Scans 2'' @ en_dash @ ''7: zero likes across 6 scans (may be hidden likes)'']
   \<and> summarizeZeroLikes
     (replicate 4 (mkScan 2000 0 1 1 1) @ [mkScan 2000 10 1 1 1]) ''tiktok'' 1000 5 = []"
  using summarizeZeroLikes_single_run
    [of "[]" "replicate 5 (mkScan 2000 0 1 1 1)" "[mkScan 2000 10 1 1 1]" "''tiktok''"]
    summarizeZeroLikes_single_run
    [of "[mkScan 500 0 1 1 1]" "replicate 6 (mkScan 2000 0 1 1 1)" "[]" "''tiktok''"]
    summarizeZeroLikes_single_run
    [of "[]" "replicate 4 (mkScan 2000 0 1 1 1)" "[mkScan 2000 10 1 1 1]" "''tiktok''"]
  by (simp add: mkScan_def showInt_small)

text \<open>
  C7. The claim holds of \<^verbatim>\<open>detectBotDuringScan\<close>, which returns no verdict for fewer than
  two scans, and of \<^verbatim>\<open>analyzeUrl\<close> on a series with no valid scan, which throws. It fails
  in \<^verbatim>\<open>analyzeUrl\<close> on a series with exactly one valid scan: the guard there is
  \<^verbatim>\<open>!validScans.length\<close>, the loop of pairwise checks does not run, and the result has no
  flagged line, which the runner prints as "No anomalies detected", as it does for a
  series that was evaluated and found clean (\<open>clean_pair_reported_clean\<close>).
\<close>
theorem single_valid_scan_reported_clean:
  "(filter (\<lambda>s. \<not> missing s) scans = [s]
      \<longrightarrow> analyzeUrl u pf scans notes
          = Inr \<lparr>url = u, platform_r = pf, scanCount = length scans, flagged = [], perScan = [],
                 zeroCommentSummaries =
                   (if pf \<in> set [''tiktok'', ''instagram'', ''youtube''] then Some [] else None),
                 lowCommentRatioSummaries =
                   (if pf \<in> set [''tiktok'', ''instagram'', ''youtube''] then Some [] else None)\<rparr>)
   \<and> (filter (\<lambda>s. \<not> missing s) scans = []
      \<longrightarrow> analyzeUrl u pf scans notes = Inl (Error ''No scans found.''))
   \<and> (length scans < 2 \<longrightarrow> detectBotDuringScan pf scans = None)"
  by (simp add: analyzeUrl_def detectBotDuringScan_def summarizeZeroLikes_def
      summarizeUltraLowEngagement_def summarizeZeroComments_def summarizeLowCommentRatio_def
      summarizeRuns_single)

theorem single_valid_scan_reported_clean_witness:
  "analyzeUrl ''u'' ''tiktok'' [mkScan 5000 100 10 5 5, (mkScan 0 0 0 0 0)\<lparr>missing := True\<rparr>] False
     = Inr \<lparr>url = ''u'', platform_r = ''tiktok'', scanCount = 2, flagged = [], perScan = [],
            zeroCommentSummaries = Some [], lowCommentRatioSummaries = Some []\<rparr>
   \<and> analyzeUrl ''u'' ''tiktok'' [(mkScan 0 0 0 0 0)\<lparr>missing := True\<rparr>] False
     = Inl (Error ''No scans found.'')
   \<and> detectBotDuringScan ''tiktok'' [mkScan 5000 100 10 5 5] = None"
proof -
  have a: "filter (\<lambda>s. \<not> missing s) [mkScan 5000 100 10 5 5, (mkScan 0 0 0 0 0)\<lparr>missing := True\<rparr>]
             = [mkScan 5000 100 10 5 5]"
    and b: "filter (\<lambda>s. \<not> missing s) [(mkScan 0 0 0 0 0)\<lparr>missing := True\<rparr>] = []"
    and c: "length [mkScan 5000 100 10 5 5] < 2"
    by (simp_all add: mkScan_def)
  from a single_valid_scan_reported_clean
    [of "[mkScan 5000 100 10 5 5, (mkScan 0 0 0 0 0)\<lparr>missing := True\<rparr>]"
      "mkScan 5000 100 10 5 5" "''u''" "''tiktok''" False]
  have 1: "analyzeUrl ''u'' ''tiktok''
      [mkScan 5000 100 10 5 5, (mkScan 0 0 0 0 0)\<lparr>missing := True\<rparr>] False
     = Inr \<lparr>url = ''u'', platform_r = ''tiktok'', scanCount = 2, flagged = [], perScan = [],
            zeroCommentSummaries = Some [], lowCommentRatioSummaries = Some []\<rparr>"
    by simp
  from b single_valid_scan_reported_clean
    [of "[(mkScan 0 0 0 0 0)\<lparr>missing := True\<rparr>]" s "''u''" "''tiktok''" False]
  have 2: "analyzeUrl ''u'' ''tiktok'' [(mkScan 0 0 0 0 0)\<lparr>missing := True\<rparr>] False
     = Inl (Error ''No scans found.'')"
    by simp
  from c single_valid_scan_reported_clean [of "[mkScan 5000 100 10 5 5]" s u "''tiktok''"]
  have 3: "detectBotDuringScan ''tiktok'' [mkScan 5000 100 10 5 5] = None"
    by simp
  from 1 2 3 show ?thesis by simp
qed

text \<open>
  C4. The two copies differ: the runner's copy has neither the early view jump nor the
  two TikTok rules. On TikTok, a transition to 5000 views with zero saves is rejected by
  the copy of \<^verbatim>\<open>detect-bot-algo.ts\<close> and passed by the copy of \<^verbatim>\<open>run-detect.ts\<close>. Where none
  of the three rules fires, the copies agree.
\<close>
theorem copies_differ_on_tiktok_zero_saves:
  "detectBotAlgo (transition ''tiktok'' [mkScan 4000 200 20 5 3, mkScan 5000 250 25 6 0] 1)
     = \<lparr>shouldReject = True, bottedReason = newline # ''zero saves at 5k+ views (TikTok)''\<rparr>
   \<and> detectBotAlgo_runner
       (transition ''tiktok'' [mkScan 4000 200 20 5 3, mkScan 5000 250 25 6 0] 1)
     = \<lparr>shouldReject = False, bottedReason = []\<rparr>"
proof -
  let ?p = "transition ''tiktok'' [mkScan 4000 200 20 5 3, mkScan 5000 250 25 6 0] 1"
  have a: "triggeredMessages ?p = [tiktokZeroSavesMsg]"
    by (simp add: eval_defs)
  have b: "\<not> snapchatUltraLowEngagement ?p"
    by (simp add: eval_defs)
  have c: "detectBotAlgo ?p
       = \<lparr>shouldReject = True, bottedReason = newline # ''zero saves at 5k+ views (TikTok)''\<rparr>"
    by (rule BotDetectorAlgoResponse.equality)
      (simp_all only: detectBotAlgo_reason detectBotAlgo_reject a b,
        simp_all add: tiktokZeroSavesMsg_def)
  have d: "detectBotAlgo_runner ?p = \<lparr>shouldReject = False, bottedReason = []\<rparr>"
    by (simp add: detectBotAlgo_runner_def flagIf_def rejectIf_def sharesSavesAnomalies_def
        checkAnomaly_def eval_defs)
  from c d show ?thesis by simp
qed

section \<open>Further properties\<close>

text \<open>
  X1. On every input on which neither the early view jump nor one of the two TikTok rules
  fires, the copy of the detector in \<^verbatim>\<open>run-detect.ts\<close> returns the response of the copy in
  \<^verbatim>\<open>detect-bot-algo.ts\<close>.
\<close>

theorem copies_agree:
  "\<not> earlyViewJump p \<Longrightarrow> \<not> tiktokZeroSaves p \<Longrightarrow> \<not> tiktokZeroShares p
     \<Longrightarrow> detectBotAlgo_runner p = detectBotAlgo p"
  by (simp add: detectBotAlgo_def detectBotAlgo_runner_def flagIf_def)

theorem copies_agree_witness:
  "detectBotAlgo_runner (transition ''tiktok'' [mkScan 1000 50 5 5 5, mkScan 1100 55 5 5 5] 1)
     = detectBotAlgo (transition ''tiktok'' [mkScan 1000 50 5 5 5, mkScan 1100 55 5 5 5] 1)"
proof -
  have "\<not> earlyViewJump (transition ''tiktok'' [mkScan 1000 50 5 5 5, mkScan 1100 55 5 5 5] 1)"
    "\<not> tiktokZeroSaves (transition ''tiktok'' [mkScan 1000 50 5 5 5, mkScan 1100 55 5 5 5] 1)"
    "\<not> tiktokZeroShares (transition ''tiktok'' [mkScan 1000 50 5 5 5, mkScan 1100 55 5 5 5] 1)"
    by (simp_all add: eval_defs)
  then show ?thesis by (rule copies_agree)
qed

text \<open>
  X2. The block of window rules completes on every input, whatever the response built so
  far: none of its reads raises, so the handler of the \<^verbatim>\<open>try\<close>/\<^verbatim>\<open>catch\<close> around it is
  never entered.
\<close>
theorem window_block_never_raises: "windowBlock p st \<noteq> Inl e"
  by (simp add: windowBlock_completes)

end
